theory Spec2Isabelle
  imports Main "HOL-Library.Multiset"
begin

section \<open>Strings\<close>

text \<open>
  JavaScript strings are modelled as \<open>string\<close>, a character standing for a UTF-16 code
  unit below 256 (the Latin-1 range); code units beyond that range are not modelled.
  The string operations the module calls are written out for this range:
  \<open>toLowerCase\<close>, \<open>trim\<close>, \<open>split\<close> and the two regular-expression replacements.
\<close>

text \<open>
  The letters \<open>toLowerCase\<close> changes: \<open>A\<close> to \<open>Z\<close>, and U+00C0 to U+00DE without the
  multiplication sign U+00D7; each is mapped to the code unit 32 above it.
\<close>

definition upperCaseLetters :: string where
  "upperCaseLetters =
     ''ABCDEFGHIJKLMNOPQRSTUVWXYZ'' @
     [CHR 0xC0, CHR 0xC1, CHR 0xC2, CHR 0xC3, CHR 0xC4, CHR 0xC5, CHR 0xC6, CHR 0xC7,
      CHR 0xC8, CHR 0xC9, CHR 0xCA, CHR 0xCB, CHR 0xCC, CHR 0xCD, CHR 0xCE, CHR 0xCF,
      CHR 0xD0, CHR 0xD1, CHR 0xD2, CHR 0xD3, CHR 0xD4, CHR 0xD5, CHR 0xD6, CHR 0xD8,
      CHR 0xD9, CHR 0xDA, CHR 0xDB, CHR 0xDC, CHR 0xDD, CHR 0xDE]"

definition lowerCaseLetters :: string where
  "lowerCaseLetters =
     ''abcdefghijklmnopqrstuvwxyz'' @
     [CHR 0xE0, CHR 0xE1, CHR 0xE2, CHR 0xE3, CHR 0xE4, CHR 0xE5, CHR 0xE6, CHR 0xE7,
      CHR 0xE8, CHR 0xE9, CHR 0xEA, CHR 0xEB, CHR 0xEC, CHR 0xED, CHR 0xEE, CHR 0xEF,
      CHR 0xF0, CHR 0xF1, CHR 0xF2, CHR 0xF3, CHR 0xF4, CHR 0xF5, CHR 0xF6, CHR 0xF8,
      CHR 0xF9, CHR 0xFA, CHR 0xFB, CHR 0xFC, CHR 0xFD, CHR 0xFE]"

definition toLowerCase_char :: "char \<Rightarrow> char" where
  "toLowerCase_char c =
     (case map_of (zip upperCaseLetters lowerCaseLetters) c of
        None \<Rightarrow> c
      | Some l \<Rightarrow> l)"

definition toLowerCase :: "string \<Rightarrow> string" where
  "toLowerCase s = map toLowerCase_char s"

text \<open>
  The white space and line terminators \<open>trim\<close> strips, in this range: TAB, LF, VT, FF,
  CR, the space and the no-break space U+00A0.
\<close>

definition isWhiteSpace :: "char \<Rightarrow> bool" where
  "isWhiteSpace c =
     (c \<in> set [CHR '' '', CHR 0x09, CHR 0x0A, CHR 0x0B, CHR 0x0C, CHR 0x0D, CHR 0xA0])"

definition trim :: "string \<Rightarrow> string" where
  "trim s = rev (dropWhile isWhiteSpace (rev (dropWhile isWhiteSpace s)))"

text \<open>\<open>s.split(d)\<close> for a one-character separator; \<open>"".split(d)\<close> is \<open>[""]\<close>.\<close>

fun split :: "char \<Rightarrow> string \<Rightarrow> string list" where
  "split d [] = [[]]"
| "split d (c # cs) =
     (if c = d then [] # split d cs
      else (case split d cs of [] \<Rightarrow> [[c]] | t # ts \<Rightarrow> (c # t) # ts))"

text \<open>
  Modelled from the spec: \<open>parseLowerCaseArray\<close> is imported from \<open>./common\<close>, which is
  not among the sources. Section 4.1 of the specification describes it: the raw string
  is split on a delimiter (the comma of the scenario \<open>"French, English"\<close>), every token
  is trimmed and lower-cased, and only non-empty tokens are kept, so that an empty or
  whitespace-only input yields the empty sequence.
\<close>

definition parseLowerCaseArray :: "string \<Rightarrow> string list" where
  "parseLowerCaseArray s =
     filter (\<lambda>t. t \<noteq> []) (map trim (split (CHR '','') (toLowerCase s)))"

text \<open>The character class \<open>\w\<close> of a JavaScript regular expression: \<open>[A-Za-z0-9_]\<close>.\<close>

definition isWordChar :: "char \<Rightarrow> bool" where
  "isWordChar c =
     (c \<in> set ''ABCDEFGHIJKLMNOPQRSTUVWXYZabcdefghijklmnopqrstuvwxyz0123456789_'')"

text \<open>The character class \<open>[\W_]\<close>.\<close>

definition isNonWordOrUnderscore :: "char \<Rightarrow> bool" where
  "isNonWordOrUnderscore c = (\<not> isWordChar c \<or> c = CHR ''_'')"

text \<open>The ASCII letters and digits: what the class \<open>[\W_]\<close> leaves out.\<close>

definition isAlphanumeric :: "char \<Rightarrow> bool" where
  "isAlphanumeric c =
     (c \<in> set ''ABCDEFGHIJKLMNOPQRSTUVWXYZabcdefghijklmnopqrstuvwxyz0123456789'')"

text \<open>
  \<open>s.replace(/[\W_]+/g, "")\<close>: scanning from the left, every maximal run of characters
  of the class is replaced by the empty string.
\<close>

function replaceNonAlphanumeric :: "string \<Rightarrow> string" where
  "replaceNonAlphanumeric [] = []"
| "replaceNonAlphanumeric (c # cs) =
     (if isNonWordOrUnderscore c
      then replaceNonAlphanumeric (dropWhile isNonWordOrUnderscore cs)
      else c # replaceNonAlphanumeric cs)"
  by pat_completeness auto
termination
  by (relation "measure length") (auto simp: length_dropWhile_le less_Suc_eq_le)

text \<open>\<open>s.replace(/\//g, "")\<close>: every occurrence of the slash is replaced by nothing.\<close>

fun replaceSlashes :: "string \<Rightarrow> string" where
  "replaceSlashes [] = []"
| "replaceSlashes (c # cs) =
     (if c = CHR ''/'' then replaceSlashes cs else c # replaceSlashes cs)"

text \<open>The decimal numeral a template literal prints for a non-negative integer.\<close>

fun decimal :: "nat \<Rightarrow> string" where
  "decimal n =
     (if n < 10 then [''0123456789'' ! n]
      else decimal (n div 10) @ [''0123456789'' ! (n mod 10)])"

declare decimal.simps [simp del]


section \<open>Data model\<close>

text \<open>
  Modelled from the spec: the declaration of \<open>BookEntry\<close> (module \<open>@/types\<close>) is not
  among the sources. Section 3 of the specification lists its attributes: \<open>title\<close>,
  \<open>author\<close>, an optional \<open>year\<close>, \<open>language\<close>, \<open>extension\<close> and a source URL. An optional
  property of a TypeScript interface is either \<open>undefined\<close> (here \<open>None\<close>) or a value.
\<close>

record BookEntry =
  title :: string
  author :: string
  year :: "string option"
  language :: string
  extension :: string
  downloadUrl :: string

text \<open>
  The table \<open>languages\<close> of \<open>./constants\<close> is not among the sources either; the only
  thing the module reads of an entry is its \<open>name\<close>. The table is a parameter of
  everything that uses it.
\<close>

record Language =
  name :: string

text \<open>
  A weight the comparison functions compute is a JavaScript value: a number, or a
  value that \<open>ToNumber\<close> turns into \<open>NaN\<close>. The latter are the functions and the object
  a table inherits from \<open>Object.prototype\<close>, and the strings that \<open>+\<close> makes of a number
  and such a value (\<open>"0function Object() { [native code] }"\<close>).
\<close>

datatype jsvalue = Num int | NonNumeric

text \<open>\<open>p + c\<close>: the sum of two numbers, a string as soon as one operand is not a number.\<close>

fun jsAdd :: "jsvalue \<Rightarrow> jsvalue \<Rightarrow> jsvalue" where
  "jsAdd (Num p) (Num c) = Num (p + c)"
| "jsAdd _ _ = NonNumeric"

text \<open>\<open>b - a\<close>: the difference of two numbers, \<open>NaN\<close> (here \<open>None\<close>) otherwise.\<close>

fun jsSubtract :: "jsvalue \<Rightarrow> jsvalue \<Rightarrow> int option" where
  "jsSubtract (Num b) (Num a) = Some (b - a)"
| "jsSubtract _ _ = None"

text \<open>The number a numeric value holds.\<close>

fun numberOf :: "jsvalue \<Rightarrow> int" where
  "numberOf (Num n) = n"
| "numberOf NonNumeric = 0"

text \<open>
  A weight table is the object literal \<open>{}\<close> the source fills with
  \<open>table[token] = weight\<close>: a dictionary of its own properties, on top of the properties
  every object literal inherits from \<open>Object.prototype\<close>.
\<close>

type_synonym weights = "string \<rightharpoonup> int"

definition objectPrototypeNames :: "string list" where
  "objectPrototypeNames =
     [''constructor'', ''__defineGetter__'', ''__defineSetter__'', ''hasOwnProperty'',
      ''__lookupGetter__'', ''__lookupSetter__'', ''isPrototypeOf'', ''propertyIsEnumerable'',
      ''toString'', ''valueOf'', ''__proto__'', ''toLocaleString'']"

text \<open>
  \<open>table[key] = v\<close> for a number \<open>v\<close>. The key \<open>__proto__\<close> is the accessor of the
  prototype, whose setter ignores a number: nothing is stored. Any other key becomes
  an own property, which hides an inherited one of the same name.
\<close>

definition assign :: "weights \<Rightarrow> string \<Rightarrow> int \<Rightarrow> weights" where
  "assign table key v = (if key = ''__proto__'' then table else table(key \<mapsto> v))"

text \<open>\<open>l in table\<close>: own and inherited properties alike.\<close>

definition hasProperty :: "weights \<Rightarrow> string \<Rightarrow> bool" where
  "hasProperty table l = (l \<in> set objectPrototypeNames \<or> table l \<noteq> None)"

text \<open>
  \<open>l in table ? table[l] : 0\<close>. When \<open>l\<close> is not an own property, \<open>table[l]\<close> is the
  inherited function or object.
\<close>

definition weightOf :: "weights \<Rightarrow> string \<Rightarrow> jsvalue" where
  "weightOf table l =
     (if hasProperty table l
      then (case table l of Some w \<Rightarrow> Num w | None \<Rightarrow> NonNumeric)
      else Num 0)"

text \<open>
  Book collections are JavaScript arrays, passed by reference and sorted in place.
  The store maps the reference of an array to its current contents.
\<close>

type_synonym ref = nat
type_synonym heap = "ref \<Rightarrow> BookEntry list"


section \<open>Ranking\<close>

text \<open>
  The loop \<open>list.forEach((t, i) => { table[t] = list.length - i })\<close>, with the length
  of the whole list and the running index as arguments.
\<close>

fun forEachAssign :: "string list \<Rightarrow> nat \<Rightarrow> nat \<Rightarrow> weights \<Rightarrow> weights" where
  "forEachAssign [] len i table = table"
| "forEachAssign (t # ts) len i table =
     forEachAssign ts len (Suc i) (assign table t (int len - int i))"

definition weightTable :: "string list \<Rightarrow> weights" where
  "weightTable list = forEachAssign list (length list) 0 Map.empty"

subsection \<open>The sort of the engine\<close>

text \<open>
  \<open>Array.prototype.sort(comparefn)\<close>. ECMAScript fixes the result only for a consistent
  comparison function and leaves the order to the implementation otherwise, which
  is what happens once a comparison yields \<open>NaN\<close>. The module runs on V8, whose sort is
  modelled after its source: the comparison result \<open>NaN\<close> counts as 0; the run the
  array begins with is found, and reversed when it is strictly descending; every
  later element is put into the run at the place a binary search finds. For 64
  elements and more V8 sorts runs of at least 32 elements this way and merges them;
  the model treats the whole array as one run, which gives the same result whenever
  the comparison function is consistent.
\<close>

definition Compare :: "('a \<Rightarrow> 'a \<Rightarrow> int option) \<Rightarrow> 'a \<Rightarrow> 'a \<Rightarrow> int" where
  "Compare comparefn x y = (case comparefn x y of None \<Rightarrow> 0 | Some v \<Rightarrow> v)"

text \<open>The loop of \<open>CountAndMakeRun\<close>: how many further elements continue the run.\<close>

fun extendRun :: "('a \<Rightarrow> 'a \<Rightarrow> int option) \<Rightarrow> bool \<Rightarrow> 'a \<Rightarrow> 'a list \<Rightarrow> nat" where
  "extendRun comparefn isDescending previousElement [] = 0"
| "extendRun comparefn isDescending previousElement (currentElement # rest) =
     (let order = Compare comparefn currentElement previousElement
      in if (if isDescending then order \<ge> 0 else order < 0) then 0
         else Suc (extendRun comparefn isDescending currentElement rest))"

fun CountAndMakeRun :: "('a \<Rightarrow> 'a \<Rightarrow> int option) \<Rightarrow> 'a list \<Rightarrow> nat \<times> 'a list" where
  "CountAndMakeRun comparefn [] = (0, [])"
| "CountAndMakeRun comparefn [x] = (1, [x])"
| "CountAndMakeRun comparefn (elementHigh # elementLow # rest) =
     (let order = Compare comparefn elementLow elementHigh;
          isDescending = (order < 0);
          runLength = 2 + extendRun comparefn isDescending elementLow rest;
          work = elementHigh # elementLow # rest
      in (runLength,
          if isDescending then rev (take runLength work) @ drop runLength work else work))"

text \<open>The binary search of \<open>BinaryInsertionSort\<close> for the place of \<open>pivot\<close> in \<open>work\<close>.\<close>

function binarySearch ::
  "('a \<Rightarrow> 'a \<Rightarrow> int option) \<Rightarrow> 'a \<Rightarrow> 'a list \<Rightarrow> nat \<Rightarrow> nat \<Rightarrow> nat" where
  "binarySearch comparefn pivot work left right =
     (if left < right then
        (let mid = left + (right - left) div 2;
             order = Compare comparefn pivot (work ! mid)
         in if order < 0 then binarySearch comparefn pivot work left mid
            else binarySearch comparefn pivot work (mid + 1) right)
      else left)"
  by pat_completeness auto
termination
  by (relation "measure (\<lambda>(c, p, w, l, r). r - l)") auto

declare binarySearch.simps [simp del]

text \<open>The run so far, and the elements still to be put into it.\<close>

fun BinaryInsertionSort :: "('a \<Rightarrow> 'a \<Rightarrow> int option) \<Rightarrow> 'a list \<Rightarrow> 'a list \<Rightarrow> 'a list" where
  "BinaryInsertionSort comparefn run [] = run"
| "BinaryInsertionSort comparefn run (pivot # rest) =
     (let left = binarySearch comparefn pivot run 0 (length run)
      in BinaryInsertionSort comparefn (take left run @ pivot # drop left run) rest)"

definition ArrayTimSort :: "('a \<Rightarrow> 'a \<Rightarrow> int option) \<Rightarrow> 'a list \<Rightarrow> 'a list" where
  "ArrayTimSort comparefn xs =
     (if length xs < 2 then xs
      else (let (runLength, work) = CountAndMakeRun comparefn xs
            in BinaryInsertionSort comparefn (take runLength work) (drop runLength work)))"

text \<open>The method sorts the array in place and returns the array itself.\<close>

definition Array_sort ::
  "ref \<Rightarrow> (BookEntry \<Rightarrow> BookEntry \<Rightarrow> int option) \<Rightarrow> heap \<Rightarrow> ref \<times> heap" where
  "Array_sort arr comparefn h = (arr, h(arr := ArrayTimSort comparefn (h arr)))"

subsection \<open>By preferred languages\<close>

definition filteredPreferredLanguageList :: "Language list \<Rightarrow> string \<Rightarrow> string list" where
  "filteredPreferredLanguageList languages preferredLanguages =
     filter (\<lambda>pl. pl \<in> set (map (\<lambda>l. toLowerCase (name l)) languages))
       (parseLowerCaseArray preferredLanguages)"

definition languageWeights :: "Language list \<Rightarrow> string \<Rightarrow> weights" where
  "languageWeights languages preferredLanguages =
     weightTable (filteredPreferredLanguageList languages preferredLanguages)"

text \<open>The weight the comparison function computes for one book.\<close>

definition languageWeight :: "weights \<Rightarrow> BookEntry \<Rightarrow> jsvalue" where
  "languageWeight table a =
     foldl (\<lambda>p c. jsAdd p c) (Num 0)
       (map (\<lambda>l. weightOf table l) (parseLowerCaseArray (language a)))"

definition sortBooksByPreferredLanguages ::
  "Language list \<Rightarrow> ref \<Rightarrow> string \<Rightarrow> heap \<Rightarrow> ref \<times> heap" where
  "sortBooksByPreferredLanguages languages books preferredLanguages h =
     (let table = languageWeights languages preferredLanguages;
          (_, h') = Array_sort books
                      (\<lambda>a b. jsSubtract (languageWeight table b) (languageWeight table a)) h
      in (books, h'))"

subsection \<open>By preferred file formats\<close>

definition formatWeights :: "string \<Rightarrow> weights" where
  "formatWeights preferredFormats = weightTable (parseLowerCaseArray preferredFormats)"

definition formatWeight :: "weights \<Rightarrow> BookEntry \<Rightarrow> jsvalue" where
  "formatWeight table a = weightOf table (replaceNonAlphanumeric (extension a))"

definition sortBooksByPreferredFileFormats :: "ref \<Rightarrow> string \<Rightarrow> heap \<Rightarrow> ref \<times> heap" where
  "sortBooksByPreferredFileFormats books preferredFormats h =
     (let table = formatWeights preferredFormats;
          (_, h') = Array_sort books
                      (\<lambda>a b. jsSubtract (formatWeight table b) (formatWeight table a)) h
      in (books, h'))"


section \<open>File names\<close>

text \<open>
  The template literal appends \<open>year && " (" + year + ")"\<close>. The operator \<open>&&\<close> yields
  its left operand when that is falsy: the empty string is printed as nothing, an
  absent property (\<open>undefined\<close>) is printed by the template as \<open>undefined\<close>.
\<close>

definition fileNameFromBookEntry :: "BookEntry \<Rightarrow> string" where
  "fileNameFromBookEntry book =
     replaceSlashes
       (author book @ '' - '' @ title book @
        (case year book of
           None \<Rightarrow> ''undefined''
         | Some y \<Rightarrow> if y = [] then [] else '' ('' @ y @ '')''))"

definition fileNameWithExtensionFromBookEntry :: "BookEntry \<Rightarrow> string" where
  "fileNameWithExtensionFromBookEntry book =
     (let fileName = fileNameFromBookEntry book
      in fileName @ ''.'' @ toLowerCase (extension book))"

text \<open>
  The characters that separate the segments of a path for \<open>node:path\<close>: the slash on
  every platform, and the backslash as well on Windows, which the folder picker below
  supports.
\<close>

definition isPathSeparator :: "char \<Rightarrow> bool" where
  "isPathSeparator c = (c = CHR ''/'' \<or> c = CHR 0x5C)"


section \<open>The world outside\<close>

text \<open>
  What the module reads from and asks of its collaborators: the preferences, the
  platform, the file system, the network and the notification sink of the host. Every
  call that can fail yields a value of a sum type, \<open>Inl\<close> the error thrown (for an
  asynchronous call, the rejection of its promise).
\<close>

datatype error =
    FetchError string   \<comment> \<open>a \<open>FetchError\<close> of \<open>node-fetch\<close>, with its \<open>code\<close>\<close>
  | Error string        \<comment> \<open>any other error, with its message\<close>

type_synonym bytes = "nat list"

record world =
  downloadPath :: string
  allowIgnoreHTTPSErrors :: bool
  platform :: string
  runAppleScript :: "error + string"
  execAsync :: "error + string"
  join :: "string \<Rightarrow> string \<Rightarrow> string"
  existsSync :: "string \<Rightarrow> bool"
  showActionToast :: "error + unit"
  fetch :: "string \<Rightarrow> bool \<Rightarrow> error + bytes"
  writeFileSync :: "string \<Rightarrow> bytes \<Rightarrow> error + unit"
  showToast :: "error + unit"
  showFailureToast :: "error + unit"

text \<open>
  The trace of an operation: the calls it makes to the notification sink, the network
  and the file system, in order, each recorded whether or not it succeeds. Diagnostic
  output on the console is not part of the trace.
\<close>

datatype event =
    ActionToast string          \<comment> \<open>the progress indicator, with its title\<close>
  | Fetch string bool           \<comment> \<open>the request: URL, and whether certificates go unverified\<close>
  | WriteFile string bytes      \<comment> \<open>path and contents\<close>
  | SuccessToast string         \<comment> \<open>the success notification, with its message\<close>
  | FailureToast string error   \<comment> \<open>the failure notification: title and error\<close>

text \<open>
  An asynchronous operation either resolves (\<open>Inr ()\<close>) or rejects with an error that
  reaches its caller (\<open>Inl\<close>). It may also never settle, when the probe loop of
  \<open>buildFileName\<close> does not end: the value \<open>None\<close>.
\<close>

type_synonym outcome = "(event list \<times> (error + unit)) option"

subsection \<open>Collision-free names\<close>

text \<open>
  The loop \<open>while (true)\<close> of \<open>buildFileName\<close>, from the index it has reached. The index
  is a JavaScript number that counts up from 2 in steps of one; it is modelled as a
  natural number.
\<close>

partial_function (option) probe :: "world \<Rightarrow> string \<Rightarrow> string \<Rightarrow> string \<Rightarrow> nat \<Rightarrow> string option" where
  "probe w path name' extension' index =
     (let newName = name' @ ''-'' @ decimal index @ ''.'' @ extension';
          newPath = join w path newName
      in if \<not> existsSync w newPath then Some newName
         else probe w path name' extension' (index + 1))"

definition buildFileName :: "world \<Rightarrow> string \<Rightarrow> string \<Rightarrow> string \<Rightarrow> string option" where
  "buildFileName w path name' extension' =
     (let baseName = name' @ ''.'' @ extension';
          filePath = join w path baseName;
          directoryExists = existsSync w filePath
      in if \<not> directoryExists then Some baseName
         else probe w path name' extension' 2)"

text \<open>
  The probe order: candidate 1 is \<open>name.ext\<close>, candidate \<open>k\<close> for \<open>k \<ge> 2\<close> is
  \<open>name-k.ext\<close>.
\<close>

definition candidate :: "string \<Rightarrow> string \<Rightarrow> nat \<Rightarrow> string" where
  "candidate name' extension' k =
     (if k \<le> 1 then name' @ ''.'' @ extension'
      else name' @ ''-'' @ decimal k @ ''.'' @ extension')"

subsection \<open>Downloads\<close>

definition fetchImageArrayBuffer :: "world \<Rightarrow> string \<Rightarrow> event list \<times> (error + bytes)" where
  "fetchImageArrayBuffer w url =
     ([Fetch url (allowIgnoreHTTPSErrors w)], fetch w url (allowIgnoreHTTPSErrors w))"

definition certificateExpiredError :: error where
  "certificateExpiredError =
     Error (''The certificate has expired. Try with a different download gateway '' @
            ''or enable 'Ignore HTTPS Errors' in your settings.'')"

text \<open>
  The \<open>catch\<close> block both download operations share, entered with the trace so far and
  the error caught. The operation settles as the failure notification does.
\<close>

definition catchDownloadError :: "world \<Rightarrow> event list \<Rightarrow> error \<Rightarrow> event list \<times> (error + unit)" where
  "catchDownloadError w evs err =
     (if (case err of FetchError code \<Rightarrow> code = ''CERT_HAS_EXPIRED'' | Error _ \<Rightarrow> False)
      then (evs @ [FailureToast ''Download Failed'' certificateExpiredError], showFailureToast w)
      else (evs @ [FailureToast ''Download Failed'' err], showFailureToast w))"

definition downloadBookToDefaultDirectory :: "world \<Rightarrow> string \<Rightarrow> BookEntry \<Rightarrow> outcome" where
  "downloadBookToDefaultDirectory w url book =
     (let name' = fileNameFromBookEntry book;
          extension' = toLowerCase (extension book);
          evs = [ActionToast ''Downloading...'']
      in case showActionToast w of
           Inl err \<Rightarrow> Some (evs, Inl err)
         | Inr _ \<Rightarrow>
             (case buildFileName w (downloadPath w) name' extension' of
                None \<Rightarrow> None
              | Some fileName \<Rightarrow>
                  (let filePath = downloadPath w @ ''/'' @ fileName;
                       (fevs, res) = fetchImageArrayBuffer w url
                   in case res of
                        Inl err \<Rightarrow> Some (catchDownloadError w (evs @ fevs) err)
                      | Inr arrayBuffer \<Rightarrow>
                          (let evs' = evs @ fevs @ [WriteFile filePath arrayBuffer]
                           in case writeFileSync w filePath arrayBuffer of
                                Inl err \<Rightarrow> Some (catchDownloadError w evs' err)
                              | Inr _ \<Rightarrow>
                                  (let evs'' = evs' @ [SuccessToast (''Saved to '' @ downloadPath w)]
                                   in case showToast w of
                                        Inl err \<Rightarrow> Some (catchDownloadError w evs'' err)
                                      | Inr _ \<Rightarrow> Some (evs'', Inr ()))))))"

definition chooseDownloadFolder :: "world \<Rightarrow> string option" where
  "chooseDownloadFolder w =
     (if platform w = ''darwin'' then
        (case runAppleScript w of
           Inl e \<Rightarrow> None
         | Inr out \<Rightarrow> Some (trim out))
      else if platform w = ''win32'' then
        (case execAsync w of
           Inl e \<Rightarrow> None
         | Inr stdout \<Rightarrow> (if trim stdout = [] then None else Some (trim stdout)))
      else None)"

definition downloadBookToLocation :: "world \<Rightarrow> string \<Rightarrow> BookEntry \<Rightarrow> outcome" where
  "downloadBookToLocation w url book =
     (let name' = fileNameFromBookEntry book;
          extension' = toLowerCase (extension book)
      in case chooseDownloadFolder w of
           None \<Rightarrow> Some ([], Inr ())
         | Some outputFolder \<Rightarrow>
             if outputFolder = [] then Some ([], Inr ())
             else
               (let evs = [ActionToast ''Downloading...'']
                in case showActionToast w of
                     Inl err \<Rightarrow> Some (evs, Inl err)
                   | Inr _ \<Rightarrow>
                       (case buildFileName w outputFolder name' extension' of
                          None \<Rightarrow> None
                        | Some fileName \<Rightarrow>
                            (let filePath = join w outputFolder fileName;
                                 (fevs, res) = fetchImageArrayBuffer w url
                             in case res of
                                  Inl err \<Rightarrow> Some (catchDownloadError w (evs @ fevs) err)
                                | Inr arrayBuffer \<Rightarrow>
                                    (let evs' = evs @ fevs @ [WriteFile filePath arrayBuffer]
                                     in case writeFileSync w filePath arrayBuffer of
                                          Inl err \<Rightarrow> Some (catchDownloadError w evs' err)
                                        | Inr _ \<Rightarrow>
                                            (let evs'' = evs' @ [SuccessToast (''Saved to '' @ fileName)]
                                             in case showToast w of
                                                  Inl err \<Rightarrow> Some (catchDownloadError w evs'' err)
                                                | Inr _ \<Rightarrow> Some (evs'', Inr ())))))))"

text \<open>
  What the failure notification carries for an error caught: the remediation message
  for an expired certificate reported by the fetch, the error itself otherwise.
\<close>

definition reported :: "error \<Rightarrow> error" where
  "reported err =
     (if err = FetchError ''CERT_HAS_EXPIRED'' then certificateExpiredError else err)"


text \<open>
  The error raised inside the \<open>try\<close> block of a download operation, if there is one:
  by the fetch, else by the write to \<open>filePath\<close>, else by the success notification.
\<close>

definition tryBlockError :: "world \<Rightarrow> string \<Rightarrow> string \<Rightarrow> error option" where
  "tryBlockError w url filePath =
     (case fetch w url (allowIgnoreHTTPSErrors w) of
        Inl err \<Rightarrow> Some err
      | Inr arrayBuffer \<Rightarrow>
          (case writeFileSync w filePath arrayBuffer of
             Inl err \<Rightarrow> Some err
           | Inr _ \<Rightarrow> (case showToast w of Inl err \<Rightarrow> Some err | Inr _ \<Rightarrow> None)))"

text \<open>The failure notifications and the requests of a trace.\<close>

fun isFailureToast :: "event \<Rightarrow> bool" where
  "isFailureToast (FailureToast _ _) = True"
| "isFailureToast _ = False"

fun isFetch :: "event \<Rightarrow> bool" where
  "isFetch (Fetch _ _) = True"
| "isFetch _ = False"


section \<open>A concrete world\<close>

text \<open>
  A download directory \<open>/dl\<close> on a POSIX system that already holds \<open>Doe, J - Book.pdf\<close>
  and \<open>Doe, J - Book-2.pdf\<close>, and a gateway whose certificate has expired.
\<close>

definition exampleDirectory :: world where
  "exampleDirectory =
     \<lparr>downloadPath = ''/dl'', allowIgnoreHTTPSErrors = False, platform = ''darwin'',
      runAppleScript = Inr ''/picked'', execAsync = Inl (Error ''spawn powershell ENOENT''),
      join = (\<lambda>p f. p @ ''/'' @ f),
      existsSync = (\<lambda>p. p \<in> set [''/dl'', ''/dl/Doe, J - Book.pdf'', ''/dl/Doe, J - Book-2.pdf'']),
      showActionToast = Inr (),
      fetch = (\<lambda>url insecure. Inl (FetchError ''CERT_HAS_EXPIRED'')),
      writeFileSync = (\<lambda>p d. Inr ()),
      showToast = Inr (), showFailureToast = Inr ()\<rparr>"


text \<open>A book whose extension is spelt in upper case.\<close>

definition exampleBook :: BookEntry where
  "exampleBook =
     \<lparr>title = ''Book'', author = ''Doe, J'', year = Some [], language = ''English'',
      extension = ''PDF'', downloadUrl = ''https://gateway.example/book''\<rparr>"


text \<open>Book entries that differ in their title, language and extension only.\<close>

definition exampleEntry :: "string \<Rightarrow> string \<Rightarrow> string \<Rightarrow> BookEntry" where
  "exampleEntry t l e =
     \<lparr>title = t, author = ''Doe, J'', year = Some [], language = l, extension = e,
      downloadUrl = ''https://gateway.example/book''\<rparr>"

text \<open>
  A shelf in catalogue order, by title: three books whose extension is \<open>constructor\<close>
  (\<open>C1\<close>, \<open>C2\<close>, \<open>C3\<close>), one \<open>epub\<close> (\<open>E\<close>), one \<open>azw\<close> (\<open>F\<close>) and two \<open>pdf\<close> (\<open>P1\<close> before \<open>P2\<close>).
\<close>

definition exampleShelf :: "BookEntry list" where
  "exampleShelf =
     [exampleEntry ''C1'' ''English'' ''constructor'',
      exampleEntry ''C2'' ''English'' ''constructor'',
      exampleEntry ''E'' ''English'' ''epub'',
      exampleEntry ''C3'' ''English'' ''constructor'',
      exampleEntry ''P1'' ''English'' ''pdf'',
      exampleEntry ''F'' ''English'' ''azw'',
      exampleEntry ''P2'' ''English'' ''pdf'']"


text \<open>A list in descending order of the values \<open>v\<close> gives its elements.\<close>

abbreviation desc :: "('a \<Rightarrow> int) \<Rightarrow> 'a list \<Rightarrow> bool" where
  "desc v xs \<equiv> sorted_wrt (\<lambda>a b. v b \<le> v a) xs"


section \<open>Weight tables\<close>

lemma forEachAssign_absent:
  "t \<notin> set ts \<Longrightarrow> forEachAssign ts len i table t = table t"
  by (induction ts arbitrary: i table) (auto simp: assign_def)

lemma forEachAssign_last:
  "j < length ts \<Longrightarrow> ts ! j = t \<Longrightarrow> t \<noteq> ''__proto__'' \<Longrightarrow>
   (\<forall>k. j < k \<and> k < length ts \<longrightarrow> ts ! k \<noteq> t) \<Longrightarrow>
   forEachAssign ts len i table t = Some (int len - int (i + j))"
proof (induction ts arbitrary: i j table)
  case Nil
  then show ?case by simp
next
  case (Cons a ts)
  show ?case
  proof (cases j)
    case 0
    with Cons.prems have a: "a = t" by simp
    have "t \<notin> set ts"
    proof
      assume "t \<in> set ts"
      then obtain k where "k < length ts" "ts ! k = t" by (auto simp: in_set_conv_nth)
      with Cons.prems(4) 0 show False by (auto dest: spec[of _ "Suc k"])
    qed
    with a 0 Cons.prems(3) show ?thesis by (simp add: forEachAssign_absent assign_def)
  next
    case (Suc j')
    with Cons.prems have 1: "j' < length ts" "ts ! j' = t" by auto
    have 2: "\<forall>k. j' < k \<and> k < length ts \<longrightarrow> ts ! k \<noteq> t"
      using Cons.prems(4) Suc by (auto dest: spec[of _ "Suc k" for k])
    from Cons.IH[OF 1 Cons.prems(3) 2] Suc show ?thesis by simp
  qed
qed

lemma weightOf_weightTable_absent:
  "t \<notin> set ts \<Longrightarrow> t \<notin> set objectPrototypeNames \<Longrightarrow> weightOf (weightTable ts) t = Num 0"
  by (simp add: weightOf_def hasProperty_def weightTable_def forEachAssign_absent)

lemma weightOf_weightTable_inherited:
  "t \<notin> set ts \<Longrightarrow> t \<in> set objectPrototypeNames \<Longrightarrow> weightOf (weightTable ts) t = NonNumeric"
  by (simp add: weightOf_def hasProperty_def weightTable_def forEachAssign_absent)

lemma weightOf_weightTable_last:
  "j < length ts \<Longrightarrow> ts ! j \<noteq> ''__proto__'' \<Longrightarrow>
   (\<forall>k. j < k \<and> k < length ts \<longrightarrow> ts ! k \<noteq> ts ! j) \<Longrightarrow>
   weightOf (weightTable ts) (ts ! j) = Num (int (length ts) - int j)"
  using forEachAssign_last[of j ts "ts ! j" "length ts" 0 Map.empty]
  by (simp add: weightOf_def hasProperty_def weightTable_def)

lemma weightOf_weightTable_distinct:
  "distinct ts \<Longrightarrow> ''__proto__'' \<notin> set ts \<Longrightarrow> i < length ts \<Longrightarrow>
   weightOf (weightTable ts) (ts ! i) = Num (int (length ts) - int i)"
proof (rule weightOf_weightTable_last)
  assume d: "distinct ts" and p: "''__proto__'' \<notin> set ts" and i: "i < length ts"
  show "i < length ts" by (rule i)
  from i have "ts ! i \<in> set ts" by simp
  with p show "ts ! i \<noteq> ''__proto__''" by metis
  from d i show "\<forall>k. i < k \<and> k < length ts \<longrightarrow> ts ! k \<noteq> ts ! i"
    by (auto simp: nth_eq_iff_index_eq)
qed


text \<open>
  Claim C1, as stated: the token at position \<open>i\<close> of a preference list of length \<open>N\<close>
  has weight \<open>N - i\<close>. It fails when a token occurs twice. For the format preference
  \<open>"pdf, epub, pdf"\<close> the list has length three and \<open>pdf\<close> stands at position 0, yet the
  second assignment to the key \<open>pdf\<close> overwrites the first: its weight is 1, not 3,
  and it is below the weight 2 of \<open>epub\<close> at position 1.
\<close>

theorem weightTable_duplicate_counterexample:
  "parseLowerCaseArray ''pdf, epub, pdf'' = [''pdf'', ''epub'', ''pdf''] \<and>
   [''pdf'', ''epub'', ''pdf''] ! 0 = ''pdf'' \<and>
   weightOf (formatWeights ''pdf, epub, pdf'') ''pdf'' = Num 1 \<and>
   weightOf (formatWeights ''pdf, epub, pdf'') ''pdf''
     \<noteq> Num (int (length [''pdf'', ''epub'', ''pdf'']) - int 0) \<and>
   weightOf (formatWeights ''pdf, epub, pdf'') ''epub'' = Num 2"
  by code_simp


text \<open>
  Claim C1, amended: in the weight table built from a token list of length \<open>N\<close>, a token
  other than \<open>__proto__\<close> has weight \<open>N - i\<close> where \<open>i\<close> is the 0-indexed position of its
  last occurrence. Hence, when the tokens of the list are pairwise distinct and
  \<open>__proto__\<close> is not among them, the token at position \<open>i\<close> has weight \<open>N - i\<close>, weights
  strictly decrease with the position and no two positions share a weight. Every
  token that is absent from the list and is not a name inherited from
  \<open>Object.prototype\<close> has weight 0. In the language case the table is built from the
  list filtered to the lower-cased names of the supported languages, \<open>N\<close> being the
  length of the filtered list, so that an unsupported token of that kind has weight
  0; in the format case it is built from the whole list.
\<close>

theorem weightTable_weights:
  "(\<forall>i<length ts. ts ! i \<noteq> ''__proto__'' \<and>
        (\<forall>k. i < k \<and> k < length ts \<longrightarrow> ts ! k \<noteq> ts ! i) \<longrightarrow>
      weightOf (weightTable ts) (ts ! i) = Num (int (length ts) - int i)) \<and>
   (distinct ts \<and> ''__proto__'' \<notin> set ts \<longrightarrow>
      (\<forall>i<length ts. \<forall>j<length ts.
         weightOf (weightTable ts) (ts ! i) = Num (int (length ts) - int i) \<and>
         (i < j \<longrightarrow> numberOf (weightOf (weightTable ts) (ts ! j))
                    < numberOf (weightOf (weightTable ts) (ts ! i))) \<and>
         (i \<noteq> j \<longrightarrow> weightOf (weightTable ts) (ts ! j) \<noteq> weightOf (weightTable ts) (ts ! i)))) \<and>
   (t \<notin> set ts \<and> t \<notin> set objectPrototypeNames \<longrightarrow> weightOf (weightTable ts) t = Num 0) \<and>
   languageWeights languages p =
     weightTable (filter (\<lambda>pl. pl \<in> (\<lambda>l. toLowerCase (name l)) ` set languages)
                    (parseLowerCaseArray p)) \<and>
   (t \<notin> (\<lambda>l. toLowerCase (name l)) ` set languages \<and> t \<notin> set objectPrototypeNames \<longrightarrow>
      weightOf (languageWeights languages p) t = Num 0) \<and>
   formatWeights p = weightTable (parseLowerCaseArray p)"
proof (intro conjI)
  show "\<forall>i<length ts. ts ! i \<noteq> ''__proto__'' \<and>
        (\<forall>k. i < k \<and> k < length ts \<longrightarrow> ts ! k \<noteq> ts ! i) \<longrightarrow>
      weightOf (weightTable ts) (ts ! i) = Num (int (length ts) - int i)"
    by (simp add: weightOf_weightTable_last)
  show "distinct ts \<and> ''__proto__'' \<notin> set ts \<longrightarrow>
      (\<forall>i<length ts. \<forall>j<length ts.
         weightOf (weightTable ts) (ts ! i) = Num (int (length ts) - int i) \<and>
         (i < j \<longrightarrow> numberOf (weightOf (weightTable ts) (ts ! j))
                    < numberOf (weightOf (weightTable ts) (ts ! i))) \<and>
         (i \<noteq> j \<longrightarrow> weightOf (weightTable ts) (ts ! j) \<noteq> weightOf (weightTable ts) (ts ! i)))"
    by (simp add: weightOf_weightTable_distinct)
  show "t \<notin> set ts \<and> t \<notin> set objectPrototypeNames \<longrightarrow> weightOf (weightTable ts) t = Num 0"
    by (simp add: weightOf_weightTable_absent)
  show "languageWeights languages p =
     weightTable (filter (\<lambda>pl. pl \<in> (\<lambda>l. toLowerCase (name l)) ` set languages)
                    (parseLowerCaseArray p))"
    by (simp add: languageWeights_def filteredPreferredLanguageList_def)
  show "t \<notin> (\<lambda>l. toLowerCase (name l)) ` set languages \<and> t \<notin> set objectPrototypeNames \<longrightarrow>
      weightOf (languageWeights languages p) t = Num 0"
    by (auto simp: languageWeights_def filteredPreferredLanguageList_def
        intro!: weightOf_weightTable_absent)
  show "formatWeights p = weightTable (parseLowerCaseArray p)"
    by (simp add: formatWeights_def)
qed

theorem weightTable_weights_witness:
  "distinct [''french'', ''english''] \<and> ''__proto__'' \<notin> set [''french'', ''english''] \<and>
   weightOf (weightTable [''french'', ''english'']) ''french'' = Num 2 \<and>
   weightOf (weightTable [''french'', ''english'']) ''english'' = Num 1 \<and>
   ''german'' \<notin> set [''french'', ''english''] \<and> ''german'' \<notin> set objectPrototypeNames \<and>
   weightOf (weightTable [''french'', ''english'']) ''german'' = Num 0 \<and>
   ''klingon'' \<notin> (\<lambda>l. toLowerCase (name l)) ` set [\<lparr>name = ''French''\<rparr>, \<lparr>name = ''English''\<rparr>] \<and>
   weightOf (languageWeights [\<lparr>name = ''French''\<rparr>, \<lparr>name = ''English''\<rparr>]
               ''Klingon, French, English'') ''french'' = Num 2 \<and>
   weightOf (languageWeights [\<lparr>name = ''French''\<rparr>, \<lparr>name = ''English''\<rparr>]
               ''Klingon, French, English'') ''klingon'' = Num 0"
proof -
  let ?L = "[\<lparr>name = ''French''\<rparr>, \<lparr>name = ''English''\<rparr>]"
  let ?ts = "[''french'', ''english'']"
  have lf: "toLowerCase ''French'' = ''french''" by code_simp
  have le: "toLowerCase ''English'' = ''english''" by code_simp
  have names: "(\<lambda>l. toLowerCase (name l)) ` set ?L = {''french'', ''english''}"
    by (simp add: lf le)
  have parse: "parseLowerCaseArray ''Klingon, French, English'' = [''klingon'', ''french'', ''english'']"
    by code_simp
  have d: "distinct ?ts \<and> ''__proto__'' \<notin> set ?ts" and g: "''german'' \<notin> set ?ts"
    and k: "''klingon'' \<notin> (\<lambda>l. toLowerCase (name l)) ` set ?L"
    unfolding names by simp_all
  have gp: "''german'' \<notin> set objectPrototypeNames" and kp: "''klingon'' \<notin> set objectPrototypeNames"
    by (simp_all add: objectPrototypeNames_def)
  have i0: "(0::nat) < length ?ts" and i1: "(1::nat) < length ?ts" by simp_all
  note inst = weightTable_weights [of ?ts "''german''" ?L "''Klingon, French, English''"]
  note inst' = weightTable_weights [of ?ts "''klingon''" ?L "''Klingon, French, English''"]
  from inst d i0 have fr: "weightOf (weightTable ?ts) (?ts ! 0) = Num (int (length ?ts) - int 0)"
    by blast
  from inst d i1 have en: "weightOf (weightTable ?ts) (?ts ! 1) = Num (int (length ?ts) - int 1)"
    by blast
  from inst g gp have de: "weightOf (weightTable ?ts) ''german'' = Num 0" by blast
  from inst have "languageWeights ?L ''Klingon, French, English''
      = weightTable (filter (\<lambda>pl. pl \<in> (\<lambda>l. toLowerCase (name l)) ` set ?L)
                      (parseLowerCaseArray ''Klingon, French, English''))"
    by blast
  then have T: "languageWeights ?L ''Klingon, French, English'' = weightTable ?ts"
    unfolding names parse by simp
  from inst' k kp
  have kl: "weightOf (languageWeights ?L ''Klingon, French, English'') ''klingon'' = Num 0"
    by blast
  from d fr en g gp de k kl show ?thesis unfolding T by simp
qed


text \<open>An absent token that is an inherited name does not weigh 0: its weight is no number.\<close>

lemma weightOf_inherited_name:
  "weightOf (weightTable [''pdf'']) ''constructor'' = NonNumeric"
  by code_simp


section \<open>The sort and the two rankings\<close>

subsection \<open>The sort permutes, whatever the comparison function\<close>

lemma mset_BinaryInsertionSort:
  "mset (BinaryInsertionSort comparefn run rest) = mset run + mset rest"
proof (induction rest arbitrary: run)
  case Nil
  then show ?case by simp
next
  case (Cons pivot rest)
  have "mset (take l run @ pivot # drop l run) = add_mset pivot (mset run)" for l
    by (metis append_take_drop_id mset.simps(2) mset_append union_mset_add_mset_right)
  with Cons show ?case by (simp add: Let_def)
qed

lemma mset_CountAndMakeRun: "mset (snd (CountAndMakeRun comparefn xs)) = mset xs"
proof (induction comparefn xs rule: CountAndMakeRun.induct)
  case (3 comparefn elementHigh elementLow rest)
  have "mset (rev (take n ys) @ drop n ys) = mset ys" for n and ys :: "'a list"
    by (metis append_take_drop_id mset_append mset_rev)
  then show ?case by (simp add: Let_def del: rev.simps take.simps drop.simps)
qed simp_all

lemma mset_ArrayTimSort: "mset (ArrayTimSort comparefn xs) = mset xs"
proof (cases "length xs < 2")
  case True
  then show ?thesis by (simp add: ArrayTimSort_def)
next
  case False
  obtain n work where cr: "CountAndMakeRun comparefn xs = (n, work)"
    by (cases "CountAndMakeRun comparefn xs")
  with mset_CountAndMakeRun[of comparefn xs] have "mset work = mset xs" by simp
  moreover have "mset (take n work) + mset (drop n work) = mset work"
    by (metis append_take_drop_id mset_append)
  ultimately show ?thesis using False cr
    by (simp add: ArrayTimSort_def mset_BinaryInsertionSort)
qed

lemma sortLang_snd:
  "sortBooksByPreferredLanguages languages books p h =
    (books, h(books := ArrayTimSort (\<lambda>a b. jsSubtract (languageWeight (languageWeights languages p) b)
                                   (languageWeight (languageWeights languages p) a)) (h books)))"
  by (simp add: sortBooksByPreferredLanguages_def Array_sort_def Let_def)

lemma sortFmt_snd:
  "sortBooksByPreferredFileFormats books p h =
    (books, h(books := ArrayTimSort (\<lambda>a b. jsSubtract (formatWeight (formatWeights p) b)
                                   (formatWeight (formatWeights p) a)) (h books)))"
  by (simp add: sortBooksByPreferredFileFormats_def Array_sort_def Let_def)


text \<open>
  Claim C9: both rankings return the reference they were given, and the store they
  leave differs from the one they found only at that reference, where the new
  contents are a permutation of the old ones: the same book entries, field by field,
  in another order.
\<close>

theorem ranking_in_place:
  "(\<exists>ys. mset ys = mset (h books) \<and>
      sortBooksByPreferredLanguages languages books preferredLanguages h = (books, h(books := ys))) \<and>
   (\<exists>ys. mset ys = mset (h books) \<and>
      sortBooksByPreferredFileFormats books preferredFormats h = (books, h(books := ys)))"
proof (intro conjI)
  let ?l = "ArrayTimSort (\<lambda>a b. jsSubtract (languageWeight (languageWeights languages preferredLanguages) b)
                        (languageWeight (languageWeights languages preferredLanguages) a)) (h books)"
  have "mset ?l = mset (h books)" by (rule mset_ArrayTimSort)
  moreover have "sortBooksByPreferredLanguages languages books preferredLanguages h
                   = (books, h(books := ?l))"
    by (rule sortLang_snd)
  ultimately show "\<exists>ys. mset ys = mset (h books) \<and>
      sortBooksByPreferredLanguages languages books preferredLanguages h = (books, h(books := ys))"
    by blast
next
  let ?l = "ArrayTimSort (\<lambda>a b. jsSubtract (formatWeight (formatWeights preferredFormats) b)
                        (formatWeight (formatWeights preferredFormats) a)) (h books)"
  have "mset ?l = mset (h books)" by (rule mset_ArrayTimSort)
  moreover have "sortBooksByPreferredFileFormats books preferredFormats h = (books, h(books := ?l))"
    by (rule sortFmt_snd)
  ultimately show "\<exists>ys. mset ys = mset (h books) \<and>
      sortBooksByPreferredFileFormats books preferredFormats h = (books, h(books := ys))"
    by blast
qed


subsection \<open>The sort on numeric weights\<close>

text \<open>
  When the comparison function is the difference of two numbers on all elements of
  the array, the binary search finds the place after the elements that weigh at
  least as much as the pivot, and the sort is the stable sort by descending weight.
\<close>

lemma binarySearch_place:
  assumes "\<forall>x\<in>set run. Compare c p x = v x - v p"
    and "desc v run"
    and "left \<le> right" "right \<le> length run"
    and "\<forall>i<left. v p \<le> v (run ! i)"
    and "\<forall>i. right \<le> i \<and> i < length run \<longrightarrow> v (run ! i) < v p"
  shows "binarySearch c p run left right \<le> length run \<and>
         (\<forall>i<binarySearch c p run left right. v p \<le> v (run ! i)) \<and>
         (\<forall>i. binarySearch c p run left right \<le> i \<and> i < length run \<longrightarrow> v (run ! i) < v p)"
  using assms
proof (induction c p run left right rule: binarySearch.induct)
  case (1 c p run left right)
  show ?case
  proof (cases "left < right")
    case False
    then have r: "binarySearch c p run left right = left"
      by (simp add: binarySearch.simps[of c p run left right])
    from False "1.prems" have "left = right" by simp
    with "1.prems" show ?thesis unfolding r by simp
  next
    case True
    define mid where "mid = left + (right - left) div 2"
    from True have mid: "left \<le> mid" "mid < right" by (auto simp: mid_def)
    with "1.prems" have midl: "mid < length run" by simp
    then have cmp: "Compare c p (run ! mid) = v (run ! mid) - v p"
      using "1.prems"(1) by simp
    show ?thesis
    proof (cases "Compare c p (run ! mid) < 0")
      case lt: True
      then have less: "v (run ! mid) < v p" using cmp by simp
      have above: "\<forall>i. mid \<le> i \<and> i < length run \<longrightarrow> v (run ! i) < v p"
      proof (intro allI impI)
        fix i assume i: "mid \<le> i \<and> i < length run"
        have "v (run ! i) \<le> v (run ! mid)"
        proof (cases "i = mid")
          case True then show ?thesis by simp
        next
          case False
          with i have "mid < i" by simp
          with "1.prems"(2) i show ?thesis by (simp add: sorted_wrt_iff_nth_less)
        qed
        with less show "v (run ! i) < v p" by simp
      qed
      have "binarySearch c p run left right = binarySearch c p run left mid"
        using True lt by (simp add: binarySearch.simps[of c p run left right] mid_def Let_def)
      moreover have "binarySearch c p run left mid \<le> length run \<and>
         (\<forall>i<binarySearch c p run left mid. v p \<le> v (run ! i)) \<and>
         (\<forall>i. binarySearch c p run left mid \<le> i \<and> i < length run \<longrightarrow> v (run ! i) < v p)"
        using "1.IH"(1)[OF True mid_def refl lt "1.prems"(1,2) mid(1) _ "1.prems"(5) above] midl
        by simp
      ultimately show ?thesis by simp
    next
      case ge: False
      then have geq: "v p \<le> v (run ! mid)" using cmp by simp
      have below: "\<forall>i<mid + 1. v p \<le> v (run ! i)"
      proof (intro allI impI)
        fix i assume i: "i < mid + 1"
        have "v (run ! mid) \<le> v (run ! i)"
        proof (cases "i = mid")
          case True then show ?thesis by simp
        next
          case False
          with i have "i < mid" by simp
          with "1.prems"(2) midl show ?thesis by (simp add: sorted_wrt_iff_nth_less)
        qed
        with geq show "v p \<le> v (run ! i)" by simp
      qed
      have "binarySearch c p run left right = binarySearch c p run (mid + 1) right"
        using True ge by (simp add: binarySearch.simps[of c p run left right] mid_def Let_def)
      moreover have "binarySearch c p run (mid + 1) right \<le> length run \<and>
         (\<forall>i<binarySearch c p run (mid + 1) right. v p \<le> v (run ! i)) \<and>
         (\<forall>i. binarySearch c p run (mid + 1) right \<le> i \<and> i < length run \<longrightarrow> v (run ! i) < v p)"
        using "1.IH"(2)[OF True mid_def refl ge "1.prems"(1,2) _ "1.prems"(4) below "1.prems"(6)] mid
        by simp
      ultimately show ?thesis by simp
    qed
  qed
qed


lemma insert_at_place:
  assumes "desc v run" and "r \<le> length run"
    and "\<forall>i<r. v p \<le> v (run ! i)"
    and "\<forall>i. r \<le> i \<and> i < length run \<longrightarrow> v (run ! i) < v p"
  shows "desc v (take r run @ p # drop r run)"
    and "filter (\<lambda>x. v x = k) (take r run @ p # drop r run) = filter (\<lambda>x. v x = k) (run @ [p])"
proof -
  have t: "\<forall>x\<in>set (take r run). v p \<le> v x"
    using assms(2,3) by (auto simp: in_set_conv_nth)
  have d: "\<forall>x\<in>set (drop r run). v x < v p"
  proof
    fix x assume "x \<in> set (drop r run)"
    then obtain i where i: "i < length (drop r run)" "x = drop r run ! i"
      by (auto simp: in_set_conv_nth)
    then have "x = run ! (r + i)" "r + i < length run" using assms(2) by auto
    with assms(4) show "v x < v p" by simp
  qed
  have dt: "desc v (take r run)" "desc v (drop r run)"
    using assms(1) by (simp_all add: sorted_wrt_take sorted_wrt_drop)
  have td: "\<forall>x\<in>set (take r run). \<forall>y\<in>set (drop r run). v y \<le> v x"
    using assms(1) by (metis append_take_drop_id sorted_wrt_append)
  show "desc v (take r run @ p # drop r run)"
    using t d dt td by (auto simp: sorted_wrt_append less_imp_le)
  have "filter (\<lambda>x. v x = k) (p # drop r run) = filter (\<lambda>x. v x = k) (drop r run @ [p])"
  proof (cases "v p = k")
    case True
    with d have "filter (\<lambda>x. v x = k) (drop r run) = []" by (auto simp: filter_empty_conv)
    with True show ?thesis by simp
  next
    case False
    then show ?thesis by simp
  qed
  then have "filter (\<lambda>x. v x = k) (take r run @ p # drop r run)
      = filter (\<lambda>x. v x = k) (take r run) @ filter (\<lambda>x. v x = k) (drop r run @ [p])"
    by simp
  also have "\<dots> = filter (\<lambda>x. v x = k) ((take r run @ drop r run) @ [p])"
    by (simp only: filter_append append_assoc)
  finally show "filter (\<lambda>x. v x = k) (take r run @ p # drop r run)
      = filter (\<lambda>x. v x = k) (run @ [p])"
    by simp
qed

lemma BinaryInsertionSort_numeric:
  assumes "\<forall>x\<in>set (run @ rest). \<forall>y\<in>set (run @ rest). Compare c x y = v y - v x"
    and "desc v run"
  shows "desc v (BinaryInsertionSort c run rest) \<and>
         filter (\<lambda>x. v x = k) (BinaryInsertionSort c run rest) = filter (\<lambda>x. v x = k) (run @ rest)"
  using assms
proof (induction rest arbitrary: run)
  case Nil
  then show ?case by simp
next
  case (Cons p rest)
  define r where "r = binarySearch c p run 0 (length run)"
  have cmp: "\<forall>x\<in>set run. Compare c p x = v x - v p" using Cons.prems(1) by simp
  have place: "r \<le> length run \<and> (\<forall>i<r. v p \<le> v (run ! i)) \<and>
      (\<forall>i. r \<le> i \<and> i < length run \<longrightarrow> v (run ! i) < v p)"
    unfolding r_def by (rule binarySearch_place[OF cmp Cons.prems(2)]) simp_all
  let ?run' = "take r run @ p # drop r run"
  have d': "desc v ?run'"
    using insert_at_place(1)[OF Cons.prems(2)] place by blast
  have f': "filter (\<lambda>x. v x = k) ?run' = filter (\<lambda>x. v x = k) (run @ [p])"
    using insert_at_place(2)[OF Cons.prems(2)] place by blast
  have "set (?run' @ rest) = set (run @ p # rest)"
  proof -
    have "set (take r run) \<union> set (drop r run) = set run"
      by (metis append_take_drop_id set_append)
    then show ?thesis by auto
  qed
  with Cons.prems(1)
  have c': "\<forall>x\<in>set (?run' @ rest). \<forall>y\<in>set (?run' @ rest). Compare c x y = v y - v x"
    by simp
  have step: "BinaryInsertionSort c run (p # rest) = BinaryInsertionSort c ?run' rest"
    by (simp add: r_def Let_def)
  have "filter (\<lambda>x. v x = k) (?run' @ rest)
      = filter (\<lambda>x. v x = k) ?run' @ filter (\<lambda>x. v x = k) rest"
    by (simp only: filter_append)
  also have "\<dots> = filter (\<lambda>x. v x = k) (run @ [p]) @ filter (\<lambda>x. v x = k) rest"
    by (simp only: f')
  also have "\<dots> = filter (\<lambda>x. v x = k) (run @ p # rest)"
    by simp
  finally have "filter (\<lambda>x. v x = k) (?run' @ rest) = filter (\<lambda>x. v x = k) (run @ p # rest)" .
  with Cons.IH[OF c' d'] show ?case unfolding step by simp
qed


lemma extendRun_le: "extendRun c d prev rest \<le> length rest"
  by (induction rest arbitrary: prev) (auto simp: Let_def)

lemma extendRun_ascending:
  assumes "\<forall>x\<in>set (prev # rest). \<forall>y\<in>set (prev # rest). Compare c x y = v y - v x"
  shows "desc v (prev # take (extendRun c False prev rest) rest)"
  using assms
proof (induction rest arbitrary: prev)
  case Nil
  then show ?case by simp
next
  case (Cons cur rest)
  have cmp: "Compare c cur prev = v prev - v cur" using Cons.prems by simp
  show ?case
  proof (cases "Compare c cur prev < 0")
    case True
    then show ?thesis by (simp add: Let_def)
  next
    case False
    with cmp have le: "v cur \<le> v prev" by simp
    have "desc v (cur # take (extendRun c False cur rest) rest)"
      using Cons.prems by (intro Cons.IH) simp
    with le have "desc v (prev # cur # take (extendRun c False cur rest) rest)"
      by auto
    with False show ?thesis by (simp add: Let_def)
  qed
qed

lemma extendRun_descending:
  assumes "\<forall>x\<in>set (prev # rest). \<forall>y\<in>set (prev # rest). Compare c x y = v y - v x"
  shows "sorted_wrt (\<lambda>a b. v a < v b) (prev # take (extendRun c True prev rest) rest)"
  using assms
proof (induction rest arbitrary: prev)
  case Nil
  then show ?case by simp
next
  case (Cons cur rest)
  have cmp: "Compare c cur prev = v prev - v cur" using Cons.prems by simp
  show ?case
  proof (cases "Compare c cur prev \<ge> 0")
    case True
    then show ?thesis by (simp add: Let_def)
  next
    case False
    with cmp have lt: "v prev < v cur" by simp
    have "sorted_wrt (\<lambda>a b. v a < v b) (cur # take (extendRun c True cur rest) rest)"
      using Cons.prems by (intro Cons.IH) simp
    with lt have "sorted_wrt (\<lambda>a b. v a < v b) (prev # cur # take (extendRun c True cur rest) rest)"
      by auto
    with False show ?thesis by (simp add: Let_def)
  qed
qed

lemma filter_rev_strict:
  "sorted_wrt (\<lambda>a b. v a < (v b :: int)) xs \<Longrightarrow>
   filter (\<lambda>x. v x = k) (rev xs) = filter (\<lambda>x. v x = k) xs"
proof (induction xs)
  case Nil
  then show ?case by simp
next
  case (Cons x xs)
  show ?case
  proof (cases "v x = k")
    case True
    with Cons.prems have "filter (\<lambda>x. v x = k) xs = []" by (auto simp: filter_empty_conv)
    moreover from this have "filter (\<lambda>x. v x = k) (rev xs) = []"
      by (simp add: rev_filter[symmetric])
    ultimately show ?thesis using True by simp
  next
    case False
    with Cons show ?thesis by simp
  qed
qed

lemma CountAndMakeRun_numeric:
  assumes "\<forall>x\<in>set xs. \<forall>y\<in>set xs. Compare c x y = v y - v x"
    and "CountAndMakeRun c xs = (n, work)"
  shows "desc v (take n work) \<and>
         filter (\<lambda>x. v x = k) (take n work) @ filter (\<lambda>x. v x = k) (drop n work)
           = filter (\<lambda>x. v x = k) xs \<and>
         set work = set xs"
proof -
  consider "xs = []" | x where "xs = [x]" | x0 x1 rest where "xs = x0 # x1 # rest"
    by (cases xs rule: list.exhaust[case_product list.exhaust]) (auto, metis list.exhaust)
  then show ?thesis
  proof cases
  case 1
  with assms(2) show ?thesis by auto
next
  case (2 x)
  with assms(2) show ?thesis by auto
next
  case (3 x0 x1 rest)
  define d where "d = (Compare c x1 x0 < 0)"
  define e where "e = extendRun c d x1 rest"
  have e: "e \<le> length rest" unfolding e_def by (rule extendRun_le)
  have n: "n = 2 + e" and work: "work = (if d then rev (take n xs) @ drop n xs else xs)"
    using assms(2) 3 by (auto simp: Let_def d_def e_def)
  have cmp0: "Compare c x1 x0 = v x0 - v x1" using assms(1) 3 by simp
  have cmp1: "\<forall>x\<in>set (x1 # rest). \<forall>y\<in>set (x1 # rest). Compare c x y = v y - v x"
    using assms(1) 3 by simp
  have tk: "take n xs = x0 # x1 # take e rest" using 3 n by simp
  have perm: "filter (\<lambda>x. v x = k) (take n xs) @ filter (\<lambda>x. v x = k) (drop n xs)
                = filter (\<lambda>x. v x = k) xs"
    by (metis append_take_drop_id filter_append)
  show ?thesis
  proof (cases d)
    case False
    then have le: "v x1 \<le> v x0" using cmp0 by (simp add: d_def)
    have "desc v (x1 # take e rest)"
      using extendRun_ascending[OF cmp1] False by (simp add: e_def)
    with le have "desc v (take n xs)" unfolding tk by auto
    with False work perm show ?thesis by simp
  next
    case True
    then have lt: "v x0 < v x1" using cmp0 by (simp add: d_def)
    have "sorted_wrt (\<lambda>a b. v a < v b) (x1 # take e rest)"
      using extendRun_descending[OF cmp1] True by (simp add: e_def)
    with lt have strict: "sorted_wrt (\<lambda>a b. v a < v b) (take n xs)" unfolding tk by auto
    have len: "length (rev (take n xs)) = n" using 3 n e by simp
    have w: "work = rev (take n xs) @ drop n xs" using True work by simp
    have tw: "take n work = rev (take n xs)" and dw: "drop n work = drop n xs"
      unfolding w using len by simp_all
    from strict have "sorted_wrt (\<lambda>a b. v b < v a) (rev (take n xs))"
      by (simp add: sorted_wrt_rev)
    then have "desc v (rev (take n xs))"
      by (rule sorted_wrt_mono_rel[rotated]) simp
    moreover have "set work = set xs"
      unfolding w by (metis append_take_drop_id set_append set_rev)
    ultimately show ?thesis
      unfolding tw dw using perm filter_rev_strict[OF strict, of k] by simp
  qed
qed
qed

lemma ArrayTimSort_numeric:
  assumes "\<forall>x\<in>set xs. \<forall>y\<in>set xs. Compare c x y = v y - v x"
  shows "desc v (ArrayTimSort c xs) \<and>
         filter (\<lambda>x. v x = k) (ArrayTimSort c xs) = filter (\<lambda>x. v x = k) xs"
proof (cases "length xs < 2")
  case True
  then have "xs = [] \<or> (\<exists>x. xs = [x])" by (cases xs) (auto simp: length_Suc_conv)
  with True show ?thesis by (auto simp: ArrayTimSort_def)
next
  case False
  obtain n work where cr: "CountAndMakeRun c xs = (n, work)"
    by (cases "CountAndMakeRun c xs")
  from CountAndMakeRun_numeric[OF assms cr, of k]
  have d: "desc v (take n work)"
    and f: "filter (\<lambda>x. v x = k) (take n work) @ filter (\<lambda>x. v x = k) (drop n work)
              = filter (\<lambda>x. v x = k) xs"
    and s: "set work = set xs" by blast+
  have "set (take n work @ drop n work) = set xs" using s by simp
  with assms have cmp: "\<forall>x\<in>set (take n work @ drop n work).
      \<forall>y\<in>set (take n work @ drop n work). Compare c x y = v y - v x"
    by (simp only:)
  have "filter (\<lambda>x. v x = k) (take n work @ drop n work) = filter (\<lambda>x. v x = k) xs"
    using f by (simp only: filter_append)
  with BinaryInsertionSort_numeric[OF cmp d, of k] False cr
  show ?thesis by (simp add: ArrayTimSort_def del: append_take_drop_id)
qed

lemma ArrayTimSort_weights_numeric:
  fixes w :: "'a \<Rightarrow> jsvalue"
  assumes "\<forall>x\<in>set xs. \<exists>n. w x = Num n"
  shows "filter (\<lambda>x. w x = j) (ArrayTimSort (\<lambda>a b. jsSubtract (w b) (w a)) xs)
           = filter (\<lambda>x. w x = j) xs"
    and "sorted_wrt (\<lambda>a b. numberOf (w b) \<le> numberOf (w a))
           (ArrayTimSort (\<lambda>a b. jsSubtract (w b) (w a)) xs)"
proof -
  let ?c = "\<lambda>a b. jsSubtract (w b) (w a)"
  let ?v = "\<lambda>x. numberOf (w x)"
  have cmp: "\<forall>x\<in>set xs. \<forall>y\<in>set xs. Compare ?c x y = ?v y - ?v x"
  proof (intro ballI)
    fix x y assume "x \<in> set xs" "y \<in> set xs"
    with assms obtain m n where "w x = Num m" "w y = Num n" by blast
    then show "Compare ?c x y = ?v y - ?v x" by (simp add: Compare_def)
  qed
  have set_eq: "set (ArrayTimSort ?c xs) = set xs"
    by (rule mset_eq_setD) (rule mset_ArrayTimSort)
  show "sorted_wrt (\<lambda>a b. numberOf (w b) \<le> numberOf (w a)) (ArrayTimSort ?c xs)"
    using ArrayTimSort_numeric[OF cmp, of 0] by blast
  show "filter (\<lambda>x. w x = j) (ArrayTimSort ?c xs) = filter (\<lambda>x. w x = j) xs"
  proof (cases j)
    case (Num k)
    have a: "filter (\<lambda>x. w x = j) (ArrayTimSort ?c xs) = filter (\<lambda>x. ?v x = k) (ArrayTimSort ?c xs)"
    proof (rule filter_cong[OF refl])
      fix x assume "x \<in> set (ArrayTimSort ?c xs)"
      with set_eq assms obtain n where "w x = Num n" by blast
      with Num show "(w x = j) = (?v x = k)" by simp
    qed
    have b: "filter (\<lambda>x. w x = j) xs = filter (\<lambda>x. ?v x = k) xs"
    proof (rule filter_cong[OF refl])
      fix x assume "x \<in> set xs"
      with assms obtain n where "w x = Num n" by blast
      with Num show "(w x = j) = (?v x = k)" by simp
    qed
    from ArrayTimSort_numeric[OF cmp, of k] show ?thesis unfolding a b by blast
  next
    case NonNumeric
    have "filter (\<lambda>x. w x = j) (ArrayTimSort ?c xs) = []"
      using set_eq assms NonNumeric by (auto simp: filter_empty_conv)
    moreover have "filter (\<lambda>x. w x = j) xs = []"
      using assms NonNumeric by (auto simp: filter_empty_conv)
    ultimately show ?thesis by simp
  qed
qed

lemma ArrayTimSort_all_equal:
  fixes w :: "'a \<Rightarrow> jsvalue"
  assumes "\<forall>x\<in>set xs. w x = Num 0"
  shows "ArrayTimSort (\<lambda>a b. jsSubtract (w b) (w a)) xs = xs"
proof -
  let ?c = "\<lambda>a b. jsSubtract (w b) (w a)"
  have n: "\<forall>x\<in>set xs. \<exists>n. w x = Num n" using assms by blast
  have set_eq: "set (ArrayTimSort ?c xs) = set xs"
    by (rule mset_eq_setD) (rule mset_ArrayTimSort)
  have "filter (\<lambda>x. w x = Num 0) (ArrayTimSort ?c xs) = ArrayTimSort ?c xs"
    using set_eq assms by (auto simp: filter_id_conv)
  moreover have "filter (\<lambda>x. w x = Num 0) xs = xs"
    using assms by (auto simp: filter_id_conv)
  ultimately show ?thesis using ArrayTimSort_weights_numeric(1)[OF n, of "Num 0"] by simp
qed

lemma weightOf_numeric:
  "l \<notin> set objectPrototypeNames \<Longrightarrow> \<exists>n. weightOf table l = Num n"
  by (auto simp: weightOf_def hasProperty_def split: option.splits)

lemma foldl_jsAdd_numeric:
  "\<forall>x\<in>set vs. \<exists>n. x = Num n \<Longrightarrow>
   foldl (\<lambda>p c. jsAdd p c) (Num a) vs = Num (a + sum_list (map numberOf vs))"
proof (induction vs arbitrary: a)
  case Nil
  then show ?case by simp
next
  case (Cons x vs)
  then obtain n where "x = Num n" by auto
  with Cons show ?case by (simp add: add.assoc)
qed

lemma languageWeight_numeric:
  assumes "\<forall>l\<in>set (parseLowerCaseArray (language b)). l \<notin> set objectPrototypeNames"
  shows "languageWeight table b
           = Num (sum_list (map (\<lambda>l. numberOf (weightOf table l)) (parseLowerCaseArray (language b))))"
proof -
  have "\<forall>x\<in>set (map (weightOf table) (parseLowerCaseArray (language b))). \<exists>n. x = Num n"
    using assms weightOf_numeric by auto
  from foldl_jsAdd_numeric[OF this, of 0] show ?thesis
    by (simp add: languageWeight_def comp_def)
qed

lemma formatWeight_numeric:
  "replaceNonAlphanumeric (extension b) \<notin> set objectPrototypeNames \<Longrightarrow>
   \<exists>n. formatWeight table b = Num n"
  by (simp add: formatWeight_def weightOf_numeric)

lemma parse_empty: "parseLowerCaseArray '''' = []"
  by (simp add: parseLowerCaseArray_def toLowerCase_def trim_def)

text \<open>Away from the inherited names both rankings are stable and sort by descending weight.\<close>

lemma language_ranking_away_from_inherited_names:
  assumes "\<forall>b\<in>set (h books). \<forall>l\<in>set (parseLowerCaseArray (language b)).
             l \<notin> set objectPrototypeNames"
  shows "filter (\<lambda>b. languageWeight (languageWeights languages p) b = j)
             (snd (sortBooksByPreferredLanguages languages books p h) books)
           = filter (\<lambda>b. languageWeight (languageWeights languages p) b = j) (h books)"
    and "sorted_wrt (\<lambda>a b. numberOf (languageWeight (languageWeights languages p) b)
                         \<le> numberOf (languageWeight (languageWeights languages p) a))
             (snd (sortBooksByPreferredLanguages languages books p h) books)"
    and "sortBooksByPreferredLanguages languages books '''' h = (books, h)"
proof -
  have n: "\<forall>b\<in>set (h books). \<exists>n. languageWeight T b = Num n" for T
    using assms languageWeight_numeric by blast
  show "filter (\<lambda>b. languageWeight (languageWeights languages p) b = j)
             (snd (sortBooksByPreferredLanguages languages books p h) books)
           = filter (\<lambda>b. languageWeight (languageWeights languages p) b = j) (h books)"
    using ArrayTimSort_weights_numeric(1)[OF n] by (simp add: sortLang_snd)
  show "sorted_wrt (\<lambda>a b. numberOf (languageWeight (languageWeights languages p) b)
                         \<le> numberOf (languageWeight (languageWeights languages p) a))
             (snd (sortBooksByPreferredLanguages languages books p h) books)"
    using ArrayTimSort_weights_numeric(2)[OF n] by (simp add: sortLang_snd)
  have T: "languageWeights languages '''' = Map.empty"
    by (simp add: languageWeights_def filteredPreferredLanguageList_def parse_empty weightTable_def)
  have z: "\<forall>b\<in>set (h books). languageWeight Map.empty b = Num 0"
  proof
    fix b assume b: "b \<in> set (h books)"
    then have "\<forall>l\<in>set (parseLowerCaseArray (language b)). weightOf Map.empty l = Num 0"
      using assms by (auto simp: weightOf_def hasProperty_def)
    then have "sum_list (map (\<lambda>l. numberOf (weightOf Map.empty l)) (parseLowerCaseArray (language b))) = 0"
    proof -
      have "\<forall>l\<in>set ts. weightOf Map.empty l = Num 0 \<Longrightarrow>
            sum_list (map (\<lambda>l. numberOf (weightOf Map.empty l)) ts) = 0" for ts
        by (induction ts) auto
      with \<open>\<forall>l\<in>set (parseLowerCaseArray (language b)). weightOf Map.empty l = Num 0\<close>
      show ?thesis by blast
    qed
    with languageWeight_numeric[of b Map.empty] assms b show "languageWeight Map.empty b = Num 0"
      by simp
  qed
  show "sortBooksByPreferredLanguages languages books '''' h = (books, h)"
    using ArrayTimSort_all_equal[OF z] by (simp add: sortLang_snd T)
qed

lemma format_ranking_away_from_inherited_names:
  assumes "\<forall>b\<in>set (h books). replaceNonAlphanumeric (extension b) \<notin> set objectPrototypeNames"
  shows "filter (\<lambda>b. formatWeight (formatWeights p) b = j)
             (snd (sortBooksByPreferredFileFormats books p h) books)
           = filter (\<lambda>b. formatWeight (formatWeights p) b = j) (h books)"
    and "sorted_wrt (\<lambda>a b. numberOf (formatWeight (formatWeights p) b)
                         \<le> numberOf (formatWeight (formatWeights p) a))
             (snd (sortBooksByPreferredFileFormats books p h) books)"
    and "sortBooksByPreferredFileFormats books '''' h = (books, h)"
proof -
  have n: "\<forall>b\<in>set (h books). \<exists>n. formatWeight T b = Num n" for T
    using assms formatWeight_numeric by blast
  show "filter (\<lambda>b. formatWeight (formatWeights p) b = j)
             (snd (sortBooksByPreferredFileFormats books p h) books)
           = filter (\<lambda>b. formatWeight (formatWeights p) b = j) (h books)"
    using ArrayTimSort_weights_numeric(1)[OF n] by (simp add: sortFmt_snd)
  show "sorted_wrt (\<lambda>a b. numberOf (formatWeight (formatWeights p) b)
                         \<le> numberOf (formatWeight (formatWeights p) a))
             (snd (sortBooksByPreferredFileFormats books p h) books)"
    using ArrayTimSort_weights_numeric(2)[OF n] by (simp add: sortFmt_snd)
  have T: "formatWeights '''' = Map.empty"
    by (simp add: formatWeights_def parse_empty weightTable_def)
  have z: "\<forall>b\<in>set (h books). formatWeight Map.empty b = Num 0"
    using assms by (auto simp: formatWeight_def weightOf_def hasProperty_def)
  show "sortBooksByPreferredFileFormats books '''' h = (books, h)"
    using ArrayTimSort_all_equal[OF z] by (simp add: sortFmt_snd T)
qed


text \<open>
  The scenario of the specification: for the preference \<open>"French, English"\<close>, both
  languages supported, the books with languages English, French and English, and
  German weigh 1, 3 and 0 and come out as the second, the first, the third.
\<close>

lemma language_ranking_scenario:
  "languageWeight (languageWeights [\<lparr>name = ''English''\<rparr>, \<lparr>name = ''French''\<rparr>] ''French, English'')
     (exampleEntry ''B'' ''French, English'' ''pdf'') = Num 3 \<and>
   snd (sortBooksByPreferredLanguages [\<lparr>name = ''English''\<rparr>, \<lparr>name = ''French''\<rparr>] 0
          ''French, English''
          (\<lambda>r. [exampleEntry ''A'' ''English'' ''pdf'',
                exampleEntry ''B'' ''French, English'' ''pdf'',
                exampleEntry ''C'' ''German'' ''pdf''])) 0
     = [exampleEntry ''B'' ''French, English'' ''pdf'',
        exampleEntry ''A'' ''English'' ''pdf'',
        exampleEntry ''C'' ''German'' ''pdf'']"
  by code_simp

subsection \<open>The rankings at an inherited name\<close>

text \<open>
  Claim C2 says that both rankings are stable, two books of equal weight keeping
  their order, and that with the empty preference string every book has weight 0.
  The code breaks it where a book's token is a name every object inherits. On the
  example shelf with the preference \<open>"azw, pdf, epub"\<close>, the two \<open>pdf\<close> books \<open>P1\<close> and \<open>P2\<close>
  both weigh 2, the weight of a \<open>constructor\<close> book is not a number, and every
  comparison with such a book yields \<open>NaN\<close>. The ranking returns \<open>C1, C2, F, P2, E, C3, P1\<close>:
  \<open>P2\<close> now stands before \<open>P1\<close>. With the empty preference the weight of \<open>C1\<close> is still
  not 0.
\<close>

theorem stability_broken_by_inherited_name:
  "formatWeight (formatWeights ''azw, pdf, epub'') (exampleEntry ''P1'' ''English'' ''pdf'') = Num 2 \<and>
   formatWeight (formatWeights ''azw, pdf, epub'') (exampleEntry ''P2'' ''English'' ''pdf'') = Num 2 \<and>
   formatWeight (formatWeights ''azw, pdf, epub'') (exampleEntry ''C1'' ''English'' ''constructor'')
     = NonNumeric \<and>
   jsSubtract (formatWeight (formatWeights ''azw, pdf, epub'') (exampleEntry ''P1'' ''English'' ''pdf''))
     (formatWeight (formatWeights ''azw, pdf, epub'') (exampleEntry ''C1'' ''English'' ''constructor''))
     = None \<and>
   snd (sortBooksByPreferredFileFormats 0 ''azw, pdf, epub'' (\<lambda>r. exampleShelf)) 0
     = [exampleEntry ''C1'' ''English'' ''constructor'',
        exampleEntry ''C2'' ''English'' ''constructor'',
        exampleEntry ''F'' ''English'' ''azw'',
        exampleEntry ''P2'' ''English'' ''pdf'',
        exampleEntry ''E'' ''English'' ''epub'',
        exampleEntry ''C3'' ''English'' ''constructor'',
        exampleEntry ''P1'' ''English'' ''pdf''] \<and>
   formatWeight (formatWeights '''') (exampleEntry ''C1'' ''English'' ''constructor'') = NonNumeric \<and>
   formatWeight (formatWeights '''') (exampleEntry ''C1'' ''English'' ''constructor'') \<noteq> Num 0"
  by code_simp


text \<open>
  Claim C3 says that the score of a book in the language ranking is the sum of the
  weights of its language tokens, an unknown token counting 0. The code breaks it
  for a token that is an inherited name. With English the only preference, a book
  whose language is \<open>constructor\<close> does not score 0: its score is no number, the
  comparison with the English book, which scores 1, yields \<open>NaN\<close>, and the book keeps
  its place before the English one.
\<close>

theorem inherited_language_token_not_zero:
  "languageWeight (languageWeights [\<lparr>name = ''English''\<rparr>] ''English'')
     (exampleEntry ''C'' ''constructor'' ''pdf'') = NonNumeric \<and>
   languageWeight (languageWeights [\<lparr>name = ''English''\<rparr>] ''English'')
     (exampleEntry ''C'' ''constructor'' ''pdf'') \<noteq> Num 0 \<and>
   languageWeight (languageWeights [\<lparr>name = ''English''\<rparr>] ''English'')
     (exampleEntry ''E'' ''English'' ''pdf'') = Num 1 \<and>
   snd (sortBooksByPreferredLanguages [\<lparr>name = ''English''\<rparr>] 0 ''English''
          (\<lambda>r. [exampleEntry ''C'' ''constructor'' ''pdf'', exampleEntry ''E'' ''English'' ''pdf''])) 0
     = [exampleEntry ''C'' ''constructor'' ''pdf'', exampleEntry ''E'' ''English'' ''pdf'']"
  by code_simp



section \<open>Extensions in the format ranking\<close>

lemma isNonWordOrUnderscore_iff: "isNonWordOrUnderscore c \<longleftrightarrow> \<not> isAlphanumeric c"
  by (auto simp: isNonWordOrUnderscore_def isWordChar_def isAlphanumeric_def)

lemma filter_dropWhile_not: "filter (\<lambda>c. \<not> P c) (dropWhile P cs) = filter (\<lambda>c. \<not> P c) cs"
  by (induction cs) auto

lemma replaceNonAlphanumeric_filter:
  "replaceNonAlphanumeric s = filter isAlphanumeric s"
proof (induction s rule: replaceNonAlphanumeric.induct)
  case 1
  then show ?case by simp
next
  case (2 c cs)
  show ?case
  proof (cases "isNonWordOrUnderscore c")
    case True
    have "filter isAlphanumeric (dropWhile isNonWordOrUnderscore cs) = filter isAlphanumeric cs"
      using filter_dropWhile_not[of isNonWordOrUnderscore cs]
      by (simp add: isNonWordOrUnderscore_iff)
    with True 2 show ?thesis by (simp add: isNonWordOrUnderscore_iff)
  next
    case False
    with 2 show ?thesis by (simp add: isNonWordOrUnderscore_iff)
  qed
qed

lemma lower_PDF: "toLowerCase ''PDF'' = ''pdf''" by code_simp
lemma filter_dotpdf: "filter isAlphanumeric ''.pdf'' = ''pdf''" by code_simp
lemma filter_pdf: "filter isAlphanumeric ''pdf'' = ''pdf''" by code_simp



text \<open>
  The weight of a book in the format ranking is the one lookup of its extension
  with every character but the ASCII letters and digits removed, so that \<open>pdf\<close>,
  \<open>.pdf\<close> and the lower-cased \<open>PDF\<close> all get the weight of the token \<open>pdf\<close>.
\<close>

lemma formatWeight_normalised:
  "formatWeight table b = weightOf table (filter isAlphanumeric (extension b))"
  "formatWeight table (b\<lparr>extension := ''pdf''\<rparr>) = weightOf table ''pdf''"
  "formatWeight table (b\<lparr>extension := ''.pdf''\<rparr>) = weightOf table ''pdf''"
  "formatWeight table (b\<lparr>extension := toLowerCase ''PDF''\<rparr>) = weightOf table ''pdf''"
  by (simp_all add: formatWeight_def replaceNonAlphanumeric_filter filter_pdf filter_dotpdf
      lower_PDF del: filter.simps)

text \<open>
  Claim C6 says that an extension whose normalised form is not in the table gets
  weight 0. The code breaks it for an extension that is an inherited name. With the
  preference \<open>"pdf"\<close> the extension \<open>constructor\<close> is its own normalised form and no key
  of the table, yet the weight of the book is not 0 and no number at all; the book
  keeps its place before a \<open>.pdf\<close> book of weight 1.
\<close>

theorem inherited_extension_not_zero:
  "replaceNonAlphanumeric (extension (exampleEntry ''C'' ''English'' ''constructor'')) = ''constructor'' \<and>
   formatWeights ''pdf'' ''constructor'' = None \<and>
   formatWeight (formatWeights ''pdf'') (exampleEntry ''C'' ''English'' ''constructor'') = NonNumeric \<and>
   formatWeight (formatWeights ''pdf'') (exampleEntry ''C'' ''English'' ''constructor'') \<noteq> Num 0 \<and>
   formatWeight (formatWeights ''pdf'') (exampleEntry ''P'' ''English'' ''.pdf'') = Num 1 \<and>
   snd (sortBooksByPreferredFileFormats 0 ''pdf''
          (\<lambda>r. [exampleEntry ''C'' ''English'' ''constructor'', exampleEntry ''P'' ''English'' ''.pdf''])) 0
     = [exampleEntry ''C'' ''English'' ''constructor'', exampleEntry ''P'' ''English'' ''.pdf'']"
  by code_simp


section \<open>File names from book entries\<close>

lemma replaceSlashes_filter: "replaceSlashes s = filter (\<lambda>c. c \<noteq> CHR ''/'') s"
  by (induction s) auto

lemma replaceSlashes_append: "replaceSlashes (s @ t) = replaceSlashes s @ replaceSlashes t"
  by (simp add: replaceSlashes_filter)

lemma replaceSlashes_id: "CHR ''/'' \<notin> set s \<Longrightarrow> replaceSlashes s = s"
  by (induction s) auto

lemma no_slash_replaceSlashes: "CHR ''/'' \<notin> set (replaceSlashes s)"
  by (simp add: replaceSlashes_filter)


text \<open>
  Claim C4, as stated: every path separator is stripped from the name, so that it is
  a single path segment on all supported platforms. Only the slash is removed. An
  author \<open>A\B\<close> keeps its backslash, the separator of Windows paths, where the module
  joins the name to the folder chosen with the platform's \<open>join\<close>.
\<close>

theorem fileName_backslash_counterexample:
  "fileNameFromBookEntry
     \<lparr>title = ''C'', author = [CHR ''A'', CHR 0x5C, CHR ''B''], year = Some [],
      language = ''English'', extension = ''pdf'', downloadUrl = ''u''\<rparr>
     = [CHR ''A'', CHR 0x5C, CHR ''B'', CHR '' '', CHR ''-'', CHR '' '', CHR ''C''] \<and>
   isPathSeparator ([CHR ''A'', CHR 0x5C, CHR ''B'', CHR '' '', CHR ''-'', CHR '' '', CHR ''C''] ! 1)"
  by (simp add: fileNameFromBookEntry_def isPathSeparator_def)


text \<open>
  Claim C4, amended: for a book entry whose \<open>year\<close> is a string, the name is the author,
  \<open>" - "\<close> and the title, followed by \<open>" (year)"\<close> exactly when the year is not the
  empty string, with every slash removed from it and no other character: when
  author, title and year hold no slash the name is their concatenation unchanged. For
  the author \<open>A/B\<close>, the title \<open>C\<close> and the empty year the name is \<open>AB - C\<close>.
\<close>

theorem fileNameFromBookEntry_shape:
  assumes "year book = Some y"
  shows "fileNameFromBookEntry book
           = replaceSlashes (author book) @ '' - '' @ replaceSlashes (title book) @
             (if y = [] then [] else '' ('' @ replaceSlashes y @ '')'') \<and>
         replaceSlashes s = filter (\<lambda>c. c \<noteq> CHR ''/'') s \<and>
         CHR ''/'' \<notin> set (fileNameFromBookEntry book) \<and>
         (CHR ''/'' \<notin> set (author book) \<union> set (title book) \<union> set y \<longrightarrow>
            fileNameFromBookEntry book
              = author book @ '' - '' @ title book @ (if y = [] then [] else '' ('' @ y @ '')'')) \<and>
         (author book = ''A/B'' \<and> title book = ''C'' \<and> y = [] \<longrightarrow>
            fileNameFromBookEntry book = ''AB - C'')"
proof (intro conjI impI)
  show 1: "fileNameFromBookEntry book
           = replaceSlashes (author book) @ '' - '' @ replaceSlashes (title book) @
             (if y = [] then [] else '' ('' @ replaceSlashes y @ '')'')"
    using assms by (simp add: fileNameFromBookEntry_def replaceSlashes_append)
  show "replaceSlashes s = filter (\<lambda>c. c \<noteq> CHR ''/'') s"
    by (rule replaceSlashes_filter)
  show "CHR ''/'' \<notin> set (fileNameFromBookEntry book)"
    by (simp add: fileNameFromBookEntry_def no_slash_replaceSlashes)
  show "fileNameFromBookEntry book
              = author book @ '' - '' @ title book @ (if y = [] then [] else '' ('' @ y @ '')'')"
    if "CHR ''/'' \<notin> set (author book) \<union> set (title book) \<union> set y"
    using that by (simp add: 1 replaceSlashes_id)
  show "fileNameFromBookEntry book = ''AB - C''"
    if "author book = ''A/B'' \<and> title book = ''C'' \<and> y = []"
    using that by (simp add: 1)
qed

theorem fileNameFromBookEntry_shape_witness:
  "year \<lparr>title = ''Book'', author = ''Doe, J'', year = Some ''2001'',
      language = ''English'', extension = ''pdf'', downloadUrl = ''u''\<rparr> = Some ''2001'' \<and>
   fileNameFromBookEntry \<lparr>title = ''Book'', author = ''Doe, J'', year = Some ''2001'',
      language = ''English'', extension = ''pdf'', downloadUrl = ''u''\<rparr>
     = ''Doe, J - Book (2001)''"
proof -
  let ?b = "\<lparr>title = ''Book'', author = ''Doe, J'', year = Some ''2001'',
      language = ''English'', extension = ''pdf'', downloadUrl = ''u''\<rparr>"
  have hyp: "year ?b = Some ''2001''" by simp
  from fileNameFromBookEntry_shape [OF hyp, of "''''"] show ?thesis by simp
qed


text \<open>When the property \<open>year\<close> is absent, the template prints \<open>undefined\<close> after the title.\<close>

lemma fileNameFromBookEntry_undefined_year:
  "year book = None \<Longrightarrow> author book = ''A/B'' \<Longrightarrow> title book = ''C'' \<Longrightarrow>
   fileNameFromBookEntry book = ''AB - Cundefined''"
  by (simp add: fileNameFromBookEntry_def)



section \<open>Collision-free file names\<close>

lemma decimal_2: "decimal 2 = ''2''" and decimal_3: "decimal 3 = ''3''"
  by (simp_all add: decimal.simps[of 2] decimal.simps[of 3])

lemma candidate_1: "candidate n e 1 = n @ ''.'' @ e"
  by (simp add: candidate_def)

lemma candidate_2: "candidate n e 2 = n @ ''-2.'' @ e"
  by (simp add: candidate_def decimal_2)

lemma candidate_3: "candidate n e 3 = n @ ''-3.'' @ e"
  by (simp add: candidate_def decimal_3)

lemma candidate_ge2: "2 \<le> k \<Longrightarrow> candidate n e k = n @ ''-'' @ decimal k @ ''.'' @ e"
  by (simp add: candidate_def)

lemma probe_step:
  "2 \<le> i \<Longrightarrow> probe w path n e i =
     (if \<not> existsSync w (join w path (candidate n e i)) then Some (candidate n e i)
      else probe w path n e (Suc i))"
  by (subst probe.simps) (simp add: candidate_def Let_def)

lemma probe_first_free:
  "2 \<le> i \<Longrightarrow> i \<le> k \<Longrightarrow> (\<forall>j. i \<le> j \<and> j < k \<longrightarrow> existsSync w (join w path (candidate n e j))) \<Longrightarrow>
   \<not> existsSync w (join w path (candidate n e k)) \<Longrightarrow>
   probe w path n e i = Some (candidate n e k)"
proof (induction "k - i" arbitrary: i)
  case 0
  then have "i = k" by simp
  with 0 show ?case by (simp add: probe_step)
next
  case (Suc d)
  then have lt: "i < k" by simp
  with Suc.prems have ex: "existsSync w (join w path (candidate n e i))" by simp
  have "probe w path n e (Suc i) = Some (candidate n e k)"
    using Suc.hyps(2) Suc.prems lt by (intro Suc.hyps(1)) auto
  with ex Suc.prems(1) show ?case by (simp add: probe_step)
qed

lemma buildFileName_first:
  assumes "1 \<le> k"
    and "\<forall>j. 1 \<le> j \<and> j < k \<longrightarrow> existsSync w (join w path (candidate n e j))"
    and "\<not> existsSync w (join w path (candidate n e k))"
  shows "buildFileName w path n e = Some (candidate n e k)"
proof (cases "k = 1")
  case True
  with assms(3) show ?thesis by (simp add: buildFileName_def candidate_def)
next
  case False
  with assms(1) have k: "2 \<le> k" by simp
  with assms(2) have base: "existsSync w (join w path (candidate n e 1))" by simp
  have "probe w path n e 2 = Some (candidate n e k)"
    using k assms(2,3) by (intro probe_first_free) auto
  with base show ?thesis by (simp add: buildFileName_def candidate_def)
qed

lemma probe_Some_free_aux:
  assumes "probe w path n e i = Some r"
  shows "2 \<le> i \<longrightarrow>
    (\<exists>k\<ge>i. r = candidate n e k \<and> \<not> existsSync w (join w path (candidate n e k)))"
proof (rule probe.raw_induct
    [where P = "\<lambda>w path n e i r. 2 \<le> i \<longrightarrow>
       (\<exists>k\<ge>i. r = candidate n e k \<and> \<not> existsSync w (join w path (candidate n e k)))",
     OF _ assms], goal_cases)
  case (1 probe' w path n e i r)
  show ?case
  proof
    assume i: "2 \<le> i"
    then have c: "n @ ''-'' @ decimal i @ ''.'' @ e = candidate n e i"
      by (simp add: candidate_def)
    from 1(2) have body:
      "(if \<not> existsSync w (join w path (candidate n e i)) then Some (candidate n e i)
        else probe' w path n e (i + 1)) = Some r"
      by (simp only: Let_def c)
    show "\<exists>k\<ge>i. r = candidate n e k \<and> \<not> existsSync w (join w path (candidate n e k))"
    proof (cases "existsSync w (join w path (candidate n e i))")
      case False
      with body have "r = candidate n e i" by simp
      with False show ?thesis by blast
    next
      case True
      with body have step: "probe' w path n e (i + 1) = Some r" by simp
      have "2 \<le> i + 1" using i by simp
      with 1(1)[OF step]
      have "\<exists>k\<ge>i + 1. r = candidate n e k \<and> \<not> existsSync w (join w path (candidate n e k))"
        by blast
      then obtain k where k: "k \<ge> i + 1" "r = candidate n e k"
        "\<not> existsSync w (join w path (candidate n e k))" by blast
      from k(1) have "k \<ge> i" by simp
      with k(2,3) show ?thesis by blast
    qed
  qed
qed
lemma buildFileName_Some_free:
  assumes "buildFileName w path n e = Some r"
  shows "\<exists>k\<ge>1. r = candidate n e k \<and> \<not> existsSync w (join w path (candidate n e k))"
proof (cases "existsSync w (join w path (candidate n e 1))")
  case False
  with assms have "r = candidate n e 1" by (simp add: buildFileName_def candidate_def)
  with False show ?thesis by blast
next
  case True
  with assms have "probe w path n e 2 = Some r" by (simp add: buildFileName_def candidate_def)
  from probe_Some_free_aux[OF this] obtain k where "k \<ge> 2" "r = candidate n e k"
    "\<not> existsSync w (join w path (candidate n e k))" by auto
  then show ?thesis by (auto intro!: exI[of _ k])
qed

lemma buildFileName_least:
  assumes "\<exists>k\<ge>1. \<not> existsSync w (join w path (candidate n e k))"
  shows "\<exists>k\<ge>1. buildFileName w path n e = Some (candidate n e k) \<and>
            \<not> existsSync w (join w path (candidate n e k)) \<and>
            (\<forall>j. 1 \<le> j \<and> j < k \<longrightarrow> existsSync w (join w path (candidate n e j)))"
proof -
  define free where "free k \<longleftrightarrow> 1 \<le> k \<and> \<not> existsSync w (join w path (candidate n e k))" for k
  from assms have ex: "\<exists>k. free k" by (auto simp: free_def)
  define k0 where "k0 = (LEAST k. free k)"
  from ex have k0: "free k0" unfolding k0_def by (auto intro: LeastI)
  have least: "\<not> free j" if "j < k0" for j
    using that unfolding k0_def by (rule not_less_Least)
  have below: "\<forall>j. 1 \<le> j \<and> j < k0 \<longrightarrow> existsSync w (join w path (candidate n e j))"
    using least by (auto simp: free_def)
  from k0 have 1: "1 \<le> k0" and 2: "\<not> existsSync w (join w path (candidate n e k0))"
    by (auto simp: free_def)
  from buildFileName_first[OF 1 below 2] 1 2 below show ?thesis by blast
qed

lemma buildFileName_returns_iff:
  "buildFileName w path n e \<noteq> None \<longleftrightarrow>
   (\<exists>k\<ge>1. \<not> existsSync w (join w path (candidate n e k)))"
proof
  assume "buildFileName w path n e \<noteq> None"
  then obtain r where "buildFileName w path n e = Some r" by auto
  from buildFileName_Some_free[OF this]
  show "\<exists>k\<ge>1. \<not> existsSync w (join w path (candidate n e k))" by blast
next
  assume "\<exists>k\<ge>1. \<not> existsSync w (join w path (candidate n e k))"
  from buildFileName_least[OF this] show "buildFileName w path n e \<noteq> None" by auto
qed


text \<open>
  Claim C5: \<open>buildFileName\<close> returns the first candidate of the probe order \<open>name.ext\<close>,
  \<open>name-2.ext\<close>, \<open>name-3.ext\<close>, ... that does not exist in the directory: when the
  candidates before the \<open>k\<close>-th all exist and the \<open>k\<close>-th does not, the result is the
  \<open>k\<close>-th. With \<open>k = 2\<close>: if \<open>name.ext\<close> exists and \<open>name-2.ext\<close> does not, the result is
  \<open>name-2.ext\<close>; with \<open>k = 3\<close>: if both exist and \<open>name-3.ext\<close> does not, it is \<open>name-3.ext\<close>.
\<close>

theorem buildFileName_first_free:
  assumes "1 \<le> k"
    and "\<forall>j. 1 \<le> j \<and> j < k \<longrightarrow> existsSync w (join w path (candidate name' extension' j))"
    and "\<not> existsSync w (join w path (candidate name' extension' k))"
  shows "buildFileName w path name' extension' = Some (candidate name' extension' k) \<and>
         candidate name' extension' 1 = name' @ ''.'' @ extension' \<and>
         candidate name' extension' 2 = name' @ ''-2.'' @ extension' \<and>
         candidate name' extension' 3 = name' @ ''-3.'' @ extension' \<and>
         (\<forall>m\<ge>2. candidate name' extension' m = name' @ ''-'' @ decimal m @ ''.'' @ extension')"
  using buildFileName_first[OF assms] candidate_1[of name' extension']
    candidate_2[of name' extension'] candidate_3[of name' extension']
    candidate_ge2[of _ name' extension']
  by blast

theorem buildFileName_first_free_witness:
  "buildFileName exampleDirectory ''/dl'' ''Doe, J - Book'' ''pdf'' = Some ''Doe, J - Book-3.pdf''"
proof -
  let ?w = exampleDirectory
  have c1: "candidate ''Doe, J - Book'' ''pdf'' 1 = ''Doe, J - Book.pdf''"
    and c2: "candidate ''Doe, J - Book'' ''pdf'' 2 = ''Doe, J - Book-2.pdf''"
    and c3: "candidate ''Doe, J - Book'' ''pdf'' 3 = ''Doe, J - Book-3.pdf''"
    by (simp_all add: candidate_1 [simplified] candidate_2 candidate_3)
  have ex: "\<forall>j. 1 \<le> j \<and> j < 3 \<longrightarrow>
      existsSync ?w (join ?w ''/dl'' (candidate ''Doe, J - Book'' ''pdf'' j))"
  proof (intro allI impI)
    fix j :: nat assume "1 \<le> j \<and> j < 3"
    then have "j = 1 \<or> j = 2" by auto
    moreover have "existsSync ?w (join ?w ''/dl'' (candidate ''Doe, J - Book'' ''pdf'' 1))"
      unfolding c1 by (simp add: exampleDirectory_def)
    moreover have "existsSync ?w (join ?w ''/dl'' (candidate ''Doe, J - Book'' ''pdf'' 2))"
      unfolding c2 by (simp add: exampleDirectory_def)
    ultimately show "existsSync ?w (join ?w ''/dl'' (candidate ''Doe, J - Book'' ''pdf'' j))"
      by blast
  qed
  have free: "\<not> existsSync ?w (join ?w ''/dl'' (candidate ''Doe, J - Book'' ''pdf'' 3))"
    unfolding c3 by (simp add: exampleDirectory_def)
  have k: "(1::nat) \<le> 3" by simp
  from buildFileName_first_free [OF k ex free] show ?thesis unfolding c3 by blast
qed


text \<open>
  Claim C10: in every directory state in which some candidate, the base name or a
  suffixed one, does not exist, the probe loop ends: \<open>buildFileName\<close> returns, and what
  it returns is the first candidate that does not exist.
\<close>

theorem buildFileName_terminates:
  assumes "\<exists>k\<ge>1. \<not> existsSync w (join w path (candidate name' extension' k))"
  shows "\<exists>k\<ge>1. buildFileName w path name' extension' = Some (candidate name' extension' k) \<and>
            \<not> existsSync w (join w path (candidate name' extension' k)) \<and>
            (\<forall>j. 1 \<le> j \<and> j < k \<longrightarrow> existsSync w (join w path (candidate name' extension' j)))"
  using assms by (rule buildFileName_least)

theorem buildFileName_terminates_witness:
  "\<exists>k\<ge>1. buildFileName exampleDirectory ''/dl'' ''Doe, J - Book'' ''pdf''
             = Some (candidate ''Doe, J - Book'' ''pdf'' k) \<and>
            \<not> existsSync exampleDirectory
                (join exampleDirectory ''/dl'' (candidate ''Doe, J - Book'' ''pdf'' k))"
proof -
  have "\<not> existsSync exampleDirectory
          (join exampleDirectory ''/dl'' (candidate ''Doe, J - Book'' ''pdf'' 3))"
    unfolding candidate_3 by (simp add: exampleDirectory_def)
  then have "\<exists>k\<ge>1. \<not> existsSync exampleDirectory
          (join exampleDirectory ''/dl'' (candidate ''Doe, J - Book'' ''pdf'' k))"
    by (intro exI[of _ 3]) simp
  from buildFileName_terminates [OF this] show ?thesis by blast
qed




section \<open>Downloads\<close>

lemma catchDownloadError_reported:
  "catchDownloadError w evs err
     = (evs @ [FailureToast ''Download Failed'' (reported err)], showFailureToast w)"
  by (cases err) (auto simp: catchDownloadError_def reported_def)

lemma default_fetch_fails:
  assumes "showActionToast w = Inr ()"
    and "buildFileName w (downloadPath w) (fileNameFromBookEntry book) (toLowerCase (extension book)) = Some fileName"
    and "fetch w url (allowIgnoreHTTPSErrors w) = Inl err"
  shows "downloadBookToDefaultDirectory w url book =
     Some ([ActionToast ''Downloading...'', Fetch url (allowIgnoreHTTPSErrors w),
            FailureToast ''Download Failed'' (reported err)], showFailureToast w)"
  using assms
  by (simp add: downloadBookToDefaultDirectory_def fetchImageArrayBuffer_def
      catchDownloadError_reported)

lemma default_write_fails:
  assumes "showActionToast w = Inr ()"
    and "buildFileName w (downloadPath w) (fileNameFromBookEntry book) (toLowerCase (extension book)) = Some fileName"
    and "fetch w url (allowIgnoreHTTPSErrors w) = Inr arrayBuffer"
    and "writeFileSync w (downloadPath w @ ''/'' @ fileName) arrayBuffer = Inl err"
  shows "downloadBookToDefaultDirectory w url book =
     Some ([ActionToast ''Downloading...'', Fetch url (allowIgnoreHTTPSErrors w),
            WriteFile (downloadPath w @ ''/'' @ fileName) arrayBuffer,
            FailureToast ''Download Failed'' (reported err)], showFailureToast w)"
  using assms
  by (simp add: downloadBookToDefaultDirectory_def fetchImageArrayBuffer_def
      catchDownloadError_reported)

lemma default_toast_fails:
  assumes "showActionToast w = Inr ()"
    and "buildFileName w (downloadPath w) (fileNameFromBookEntry book) (toLowerCase (extension book)) = Some fileName"
    and "fetch w url (allowIgnoreHTTPSErrors w) = Inr arrayBuffer"
    and "writeFileSync w (downloadPath w @ ''/'' @ fileName) arrayBuffer = Inr ()"
    and "showToast w = Inl err"
  shows "downloadBookToDefaultDirectory w url book =
     Some ([ActionToast ''Downloading...'', Fetch url (allowIgnoreHTTPSErrors w),
            WriteFile (downloadPath w @ ''/'' @ fileName) arrayBuffer,
            SuccessToast (''Saved to '' @ downloadPath w),
            FailureToast ''Download Failed'' (reported err)], showFailureToast w)"
  using assms
  by (simp add: downloadBookToDefaultDirectory_def fetchImageArrayBuffer_def
      catchDownloadError_reported)

lemma default_success:
  assumes "showActionToast w = Inr ()"
    and "buildFileName w (downloadPath w) (fileNameFromBookEntry book) (toLowerCase (extension book)) = Some fileName"
    and "fetch w url (allowIgnoreHTTPSErrors w) = Inr arrayBuffer"
    and "writeFileSync w (downloadPath w @ ''/'' @ fileName) arrayBuffer = Inr ()"
    and "showToast w = Inr ()"
  shows "downloadBookToDefaultDirectory w url book =
     Some ([ActionToast ''Downloading...'', Fetch url (allowIgnoreHTTPSErrors w),
            WriteFile (downloadPath w @ ''/'' @ fileName) arrayBuffer,
            SuccessToast (''Saved to '' @ downloadPath w)], Inr ())"
  using assms
  by (simp add: downloadBookToDefaultDirectory_def fetchImageArrayBuffer_def)

lemma location_fetch_fails:
  assumes "chooseDownloadFolder w = Some outputFolder" and "outputFolder \<noteq> []"
    and "showActionToast w = Inr ()"
    and "buildFileName w outputFolder (fileNameFromBookEntry book) (toLowerCase (extension book)) = Some fileName"
    and "fetch w url (allowIgnoreHTTPSErrors w) = Inl err"
  shows "downloadBookToLocation w url book =
     Some ([ActionToast ''Downloading...'', Fetch url (allowIgnoreHTTPSErrors w),
            FailureToast ''Download Failed'' (reported err)], showFailureToast w)"
  using assms
  by (simp add: downloadBookToLocation_def fetchImageArrayBuffer_def
      catchDownloadError_reported)

lemma location_write_fails:
  assumes "chooseDownloadFolder w = Some outputFolder" and "outputFolder \<noteq> []"
    and "showActionToast w = Inr ()"
    and "buildFileName w outputFolder (fileNameFromBookEntry book) (toLowerCase (extension book)) = Some fileName"
    and "fetch w url (allowIgnoreHTTPSErrors w) = Inr arrayBuffer"
    and "writeFileSync w (join w outputFolder fileName) arrayBuffer = Inl err"
  shows "downloadBookToLocation w url book =
     Some ([ActionToast ''Downloading...'', Fetch url (allowIgnoreHTTPSErrors w),
            WriteFile (join w outputFolder fileName) arrayBuffer,
            FailureToast ''Download Failed'' (reported err)], showFailureToast w)"
  using assms
  by (simp add: downloadBookToLocation_def fetchImageArrayBuffer_def
      catchDownloadError_reported)

lemma location_toast_fails:
  assumes "chooseDownloadFolder w = Some outputFolder" and "outputFolder \<noteq> []"
    and "showActionToast w = Inr ()"
    and "buildFileName w outputFolder (fileNameFromBookEntry book) (toLowerCase (extension book)) = Some fileName"
    and "fetch w url (allowIgnoreHTTPSErrors w) = Inr arrayBuffer"
    and "writeFileSync w (join w outputFolder fileName) arrayBuffer = Inr ()"
    and "showToast w = Inl err"
  shows "downloadBookToLocation w url book =
     Some ([ActionToast ''Downloading...'', Fetch url (allowIgnoreHTTPSErrors w),
            WriteFile (join w outputFolder fileName) arrayBuffer,
            SuccessToast (''Saved to '' @ fileName),
            FailureToast ''Download Failed'' (reported err)], showFailureToast w)"
  using assms
  by (simp add: downloadBookToLocation_def fetchImageArrayBuffer_def
      catchDownloadError_reported)


lemma default_try_fails:
  assumes "showActionToast w = Inr ()"
    and "buildFileName w (downloadPath w) (fileNameFromBookEntry book) (toLowerCase (extension book)) = Some fileName"
    and "tryBlockError w url (downloadPath w @ ''/'' @ fileName) = Some err"
  shows "\<exists>evs. downloadBookToDefaultDirectory w url book = Some (evs, showFailureToast w) \<and>
           filter isFailureToast evs = [FailureToast ''Download Failed'' (reported err)] \<and>
           length (filter isFetch evs) = 1"
proof (cases "fetch w url (allowIgnoreHTTPSErrors w)")
  case (Inl e)
  with assms(3) have "e = err" by (simp add: tryBlockError_def)
  with default_fetch_fails[OF assms(1,2) Inl] show ?thesis by simp
next
  case (Inr arrayBuffer)
  note f = this
  show ?thesis
  proof (cases "writeFileSync w (downloadPath w @ ''/'' @ fileName) arrayBuffer")
    case (Inl e)
    with assms(3) f have "e = err" by (simp add: tryBlockError_def)
    with default_write_fails[OF assms(1,2) f Inl] show ?thesis by simp
  next
    case (Inr u)
    then have wr: "writeFileSync w (downloadPath w @ ''/'' @ fileName) arrayBuffer = Inr ()" by simp
    with assms(3) f have "showToast w = Inl err"
      by (simp add: tryBlockError_def split: sum.splits)
    from default_toast_fails[OF assms(1,2) f wr this] show ?thesis by simp
  qed
qed

lemma location_try_fails:
  assumes "chooseDownloadFolder w = Some outputFolder" and "outputFolder \<noteq> []"
    and "showActionToast w = Inr ()"
    and "buildFileName w outputFolder (fileNameFromBookEntry book) (toLowerCase (extension book)) = Some fileName"
    and "tryBlockError w url (join w outputFolder fileName) = Some err"
  shows "\<exists>evs. downloadBookToLocation w url book = Some (evs, showFailureToast w) \<and>
           filter isFailureToast evs = [FailureToast ''Download Failed'' (reported err)] \<and>
           length (filter isFetch evs) = 1"
proof (cases "fetch w url (allowIgnoreHTTPSErrors w)")
  case (Inl e)
  with assms(5) have "e = err" by (simp add: tryBlockError_def)
  with location_fetch_fails[OF assms(1-4) Inl] show ?thesis by simp
next
  case (Inr arrayBuffer)
  note f = this
  show ?thesis
  proof (cases "writeFileSync w (join w outputFolder fileName) arrayBuffer")
    case (Inl e)
    with assms(5) f have "e = err" by (simp add: tryBlockError_def)
    with location_write_fails[OF assms(1-4) f Inl] show ?thesis by simp
  next
    case (Inr u)
    then have wr: "writeFileSync w (join w outputFolder fileName) arrayBuffer = Inr ()" by simp
    with assms(5) f have "showToast w = Inl err"
      by (simp add: tryBlockError_def split: sum.splits)
    from location_toast_fails[OF assms(1-4) f wr this] show ?thesis by simp
  qed
qed

lemma progress_indicator_failure_propagates:
  "showActionToast w = Inl err \<Longrightarrow>
   downloadBookToDefaultDirectory w url book = Some ([ActionToast ''Downloading...''], Inl err)"
  by (simp add: downloadBookToDefaultDirectory_def)


lemma exampleBook_name:
  "fileNameFromBookEntry exampleBook = ''Doe, J - Book''"
  "toLowerCase (extension exampleBook) = ''pdf''"
  by (simp_all add: exampleBook_def fileNameFromBookEntry_def lower_PDF)

lemma exampleDirectory_fields:
  "downloadPath exampleDirectory = ''/dl''"
  "allowIgnoreHTTPSErrors exampleDirectory = False"
  "platform exampleDirectory = ''darwin''"
  "runAppleScript exampleDirectory = Inr ''/picked''"
  "execAsync exampleDirectory = Inl (Error ''spawn powershell ENOENT'')"
  "join exampleDirectory p f = p @ ''/'' @ f"
  "existsSync exampleDirectory p
     = (p \<in> set [''/dl'', ''/dl/Doe, J - Book.pdf'', ''/dl/Doe, J - Book-2.pdf''])"
  "showActionToast exampleDirectory = Inr ()"
  "fetch exampleDirectory url insecure = Inl (FetchError ''CERT_HAS_EXPIRED'')"
  "writeFileSync exampleDirectory p d = Inr ()"
  "showToast exampleDirectory = Inr ()"
  "showFailureToast exampleDirectory = Inr ()"
  by (simp_all add: exampleDirectory_def)

lemma exampleDirectory_default_name:
  "buildFileName exampleDirectory ''/dl'' ''Doe, J - Book'' ''pdf'' = Some ''Doe, J - Book-3.pdf''"
proof -
  let ?w = exampleDirectory
  have c1: "candidate ''Doe, J - Book'' ''pdf'' 1 = ''Doe, J - Book.pdf''"
    and c2: "candidate ''Doe, J - Book'' ''pdf'' 2 = ''Doe, J - Book-2.pdf''"
    and c3: "candidate ''Doe, J - Book'' ''pdf'' 3 = ''Doe, J - Book-3.pdf''"
    by (simp_all add: candidate_1 [simplified] candidate_2 candidate_3)
  have ex: "\<forall>j. 1 \<le> j \<and> j < 3 \<longrightarrow>
      existsSync ?w (join ?w ''/dl'' (candidate ''Doe, J - Book'' ''pdf'' j))"
  proof (intro allI impI)
    fix j :: nat assume "1 \<le> j \<and> j < 3"
    then have "j = 1 \<or> j = 2" by auto
    moreover have "existsSync ?w (join ?w ''/dl'' (candidate ''Doe, J - Book'' ''pdf'' 1))"
      unfolding c1 by (simp add: exampleDirectory_fields)
    moreover have "existsSync ?w (join ?w ''/dl'' (candidate ''Doe, J - Book'' ''pdf'' 2))"
      unfolding c2 by (simp add: exampleDirectory_fields)
    ultimately show "existsSync ?w (join ?w ''/dl'' (candidate ''Doe, J - Book'' ''pdf'' j))"
      by blast
  qed
  have free: "\<not> existsSync ?w (join ?w ''/dl'' (candidate ''Doe, J - Book'' ''pdf'' 3))"
    unfolding c3 by (simp add: exampleDirectory_fields)
  have k: "(1::nat) \<le> 3" by simp
  from buildFileName_first [OF k ex free] show ?thesis unfolding c3 .
qed

lemma exampleDirectory_picked_name:
  "buildFileName exampleDirectory ''/picked'' ''Doe, J - Book'' ''pdf'' = Some ''Doe, J - Book.pdf''"
  by (simp add: buildFileName_def exampleDirectory_fields)

lemma exampleDirectory_folder: "chooseDownloadFolder exampleDirectory = Some ''/picked''"
  by (simp add: chooseDownloadFolder_def exampleDirectory_fields trim_def isWhiteSpace_def)

lemma reported_cert: "reported (FetchError ''CERT_HAS_EXPIRED'') = certificateExpiredError"
  by (simp add: reported_def)

lemma reported_other: "err \<noteq> FetchError ''CERT_HAS_EXPIRED'' \<Longrightarrow> reported err = err"
  by (simp add: reported_def)


text \<open>
  Claim C7, as stated: every failure raised inside a download operation is caught and
  turned into exactly one failure notification. It fails for the folder picker of
  \<open>downloadBookToLocation\<close>: on Windows, when the command that opens the dialog is
  rejected, \<open>chooseDownloadFolder\<close> catches the error and returns no path, and the
  operation ends with an empty trace, no notification among it.
\<close>

theorem download_failure_silent_counterexample:
  "platform (exampleDirectory\<lparr>platform := ''win32''\<rparr>) = ''win32'' \<and>
   execAsync (exampleDirectory\<lparr>platform := ''win32''\<rparr>) = Inl (Error ''spawn powershell ENOENT'') \<and>
   chooseDownloadFolder (exampleDirectory\<lparr>platform := ''win32''\<rparr>) = None \<and>
   downloadBookToLocation (exampleDirectory\<lparr>platform := ''win32''\<rparr>)
     (downloadUrl exampleBook) exampleBook = Some ([], Inr ()) \<and>
   length (filter isFailureToast ([] :: event list)) \<noteq> 1"
  by (simp add: downloadBookToLocation_def chooseDownloadFolder_def exampleDirectory_fields)


text \<open>
  Claim C7, amended: every failure raised inside the \<open>try\<close> block of a download
  operation, by the fetch, the write of the file or the success notification, after
  the progress indicator was shown and the file name built, is caught and turned
  into exactly one failure notification, titled \<open>Download Failed\<close>; the operation then
  settles as that notification does, so nothing propagates when it is shown. The
  notification carries the remediation message when the error is the fetch's
  expired-certificate error, and the error itself otherwise. The trace holds one
  fetch: nothing is retried.
\<close>

theorem download_failure_reported:
  "(showActionToast w = Inr () \<and>
    buildFileName w (downloadPath w) (fileNameFromBookEntry book) (toLowerCase (extension book))
      = Some fileName \<and>
    tryBlockError w url (downloadPath w @ ''/'' @ fileName) = Some err \<longrightarrow>
      (\<exists>evs. downloadBookToDefaultDirectory w url book = Some (evs, showFailureToast w) \<and>
             filter isFailureToast evs = [FailureToast ''Download Failed'' (reported err)] \<and>
             length (filter isFetch evs) = 1)) \<and>
   (chooseDownloadFolder w = Some outputFolder \<and> outputFolder \<noteq> [] \<and>
    showActionToast w = Inr () \<and>
    buildFileName w outputFolder (fileNameFromBookEntry book) (toLowerCase (extension book))
      = Some fileName' \<and>
    tryBlockError w url (join w outputFolder fileName') = Some err' \<longrightarrow>
      (\<exists>evs. downloadBookToLocation w url book = Some (evs, showFailureToast w) \<and>
             filter isFailureToast evs = [FailureToast ''Download Failed'' (reported err')] \<and>
             length (filter isFetch evs) = 1)) \<and>
   reported (FetchError ''CERT_HAS_EXPIRED'') = certificateExpiredError \<and>
   (e \<noteq> FetchError ''CERT_HAS_EXPIRED'' \<longrightarrow> reported e = e)"
  using default_try_fails[of w book fileName url err]
    location_try_fails[of w outputFolder book fileName' url err']
    reported_cert reported_other[of e]
  by blast

theorem download_failure_reported_witness:
  "showActionToast exampleDirectory = Inr () \<and>
   tryBlockError exampleDirectory (downloadUrl exampleBook) ''/dl/Doe, J - Book-3.pdf''
     = Some (FetchError ''CERT_HAS_EXPIRED'') \<and>
   (\<exists>evs. downloadBookToDefaultDirectory exampleDirectory (downloadUrl exampleBook) exampleBook
            = Some (evs, Inr ()) \<and>
          filter isFailureToast evs = [FailureToast ''Download Failed'' certificateExpiredError] \<and>
          length (filter isFetch evs) = 1) \<and>
   (\<exists>evs. downloadBookToLocation exampleDirectory (downloadUrl exampleBook) exampleBook
            = Some (evs, Inr ()) \<and>
          filter isFailureToast evs = [FailureToast ''Download Failed'' certificateExpiredError] \<and>
          length (filter isFetch evs) = 1)"
proof -
  let ?w = exampleDirectory and ?u = "downloadUrl exampleBook"
  have t: "showActionToast ?w = Inr ()" by (simp add: exampleDirectory_fields)
  have n1: "buildFileName ?w (downloadPath ?w) (fileNameFromBookEntry exampleBook)
              (toLowerCase (extension exampleBook)) = Some ''Doe, J - Book-3.pdf''"
    by (simp only: exampleBook_name exampleDirectory_fields exampleDirectory_default_name)
  have e1: "tryBlockError ?w ?u (downloadPath ?w @ ''/'' @ ''Doe, J - Book-3.pdf'')
              = Some (FetchError ''CERT_HAS_EXPIRED'')"
    by (simp add: tryBlockError_def exampleDirectory_fields)
  have f: "chooseDownloadFolder ?w = Some ''/picked''" "''/picked'' \<noteq> []"
    by (simp_all add: exampleDirectory_folder)
  have n2: "buildFileName ?w ''/picked'' (fileNameFromBookEntry exampleBook)
              (toLowerCase (extension exampleBook)) = Some ''Doe, J - Book.pdf''"
    by (simp only: exampleBook_name exampleDirectory_picked_name)
  have e2: "tryBlockError ?w ?u (join ?w ''/picked'' ''Doe, J - Book.pdf'')
              = Some (FetchError ''CERT_HAS_EXPIRED'')"
    by (simp add: tryBlockError_def exampleDirectory_fields)
  have e1': "tryBlockError ?w ?u ''/dl/Doe, J - Book-3.pdf'' = Some (FetchError ''CERT_HAS_EXPIRED'')"
    by (simp add: tryBlockError_def exampleDirectory_fields)
  have r: "showFailureToast ?w = Inr ()" by (simp add: exampleDirectory_fields)
  note inst = download_failure_reported [of ?w exampleBook "''Doe, J - Book-3.pdf''" ?u
      "FetchError ''CERT_HAS_EXPIRED''" "''/picked''" "''Doe, J - Book.pdf''"
      "FetchError ''CERT_HAS_EXPIRED''" "Error ''x''"]
  from inst t n1 e1 have d: "\<exists>evs. downloadBookToDefaultDirectory ?w ?u exampleBook
            = Some (evs, showFailureToast ?w) \<and>
          filter isFailureToast evs
            = [FailureToast ''Download Failed'' (reported (FetchError ''CERT_HAS_EXPIRED''))] \<and>
          length (filter isFetch evs) = 1"
    by blast
  from inst t f n2 e2 have l: "\<exists>evs. downloadBookToLocation ?w ?u exampleBook
            = Some (evs, showFailureToast ?w) \<and>
          filter isFailureToast evs
            = [FailureToast ''Download Failed'' (reported (FetchError ''CERT_HAS_EXPIRED''))] \<and>
          length (filter isFetch evs) = 1"
    by blast
  from inst have rc: "reported (FetchError ''CERT_HAS_EXPIRED'') = certificateExpiredError"
    by blast
  from t e1' d l show ?thesis unfolding rc r by blast
qed


text \<open>
  Claim C8: when the folder selector returns no path (or the empty path),
  \<open>downloadBookToLocation\<close> resolves with an empty trace: no progress indicator, no
  fetch, no write and no failure notification.
\<close>

theorem folder_selection_cancelled:
  assumes "chooseDownloadFolder w = None \<or> chooseDownloadFolder w = Some []"
  shows "downloadBookToLocation w url book = Some ([], Inr ())"
  using assms by (auto simp: downloadBookToLocation_def)

theorem folder_selection_cancelled_witness:
  "chooseDownloadFolder (exampleDirectory\<lparr>platform := ''linux''\<rparr>) = None \<and>
   downloadBookToLocation (exampleDirectory\<lparr>platform := ''linux''\<rparr>)
     (downloadUrl exampleBook) exampleBook = Some ([], Inr ())"
proof -
  have n: "chooseDownloadFolder (exampleDirectory\<lparr>platform := ''linux''\<rparr>) = None"
    by (simp add: chooseDownloadFolder_def)
  then have "chooseDownloadFolder (exampleDirectory\<lparr>platform := ''linux''\<rparr>) = None \<or>
     chooseDownloadFolder (exampleDirectory\<lparr>platform := ''linux''\<rparr>) = Some []" by simp
  from n folder_selection_cancelled [OF this] show ?thesis by blast
qed


end
